theory Spec2Isabelle
  imports Complex_Main
begin

section \<open>Vim segments of powerline: caches, listers and leaf segments\<close>

text \<open>
  A shallow embedding of \<^verbatim>\<open>powerline/segments/vim.py\<close>. The module runs inside Vim's
  Python interpreter (Python 2 or Python 3: the file imports \<^verbatim>\<open>xrange\<close> from
  \<^verbatim>\<open>__builtin__\<close> when it can, and handles a \<^verbatim>\<open>UnicodeDecodeError\<close> that
  "may happen in Python 3"). Everything the module asks of the \<^verbatim>\<open>vim\<close> module and of
  \<^verbatim>\<open>powerline.bindings.vim\<close> is a field of the record \<open>vim_host\<close>, so every theorem
  holds for whatever the host answers. A Python float is modelled by the rational number
  it denotes, and every float operation rounds as IEEE 754 binary64 does
  (\<open>round_double\<close>).
\<close>

subsection \<open>Python values\<close>

datatype py_error =
    KeyError
  | IndexError
  | TypeError
  | AttributeError
  | ZeroDivisionError
  | UnboundLocalError
  | OverflowError
  | VimError

text \<open>
  What \<^verbatim>\<open>buf[i]\<close> gives: the text of the line, or, when the bytes of the line cannot be
  decoded, a \<^verbatim>\<open>UnicodeDecodeError\<close>.
\<close>

datatype bufline = Line string | Undecodable

record buffer =
  buf_number :: int
  buf_lines :: "bufline list"

text \<open>
  A window: its number, its buffer, its window-local variables (\<^verbatim>\<open>window.vars\<close>, numbers
  here, as powerline sets \<^verbatim>\<open>powerline_window_id\<close>) and the cursor (line, column).
\<close>

record window =
  win_number :: int
  win_buffer :: buffer
  win_vars :: "(string \<times> int) list"
  win_cursor :: "int \<times> int"

record tabpage =
  tab_number :: int
  tab_window :: window

datatype pyval =
    PNone
  | PInt int
  | PFloat rat
  | PStr string
  | PBuffer buffer
  | PWindow window
  | PTabpage tabpage

text \<open>
  \<^verbatim>\<open>segment_info\<close> and the override dictionaries of the listers are Python dicts with
  string keys. The dicts that \<^verbatim>\<open>copy\<close> and \<^verbatim>\<open>update\<close> touch live in a store:
  an address is an index into the list of all dicts allocated so far.
\<close>

type_synonym dict = "string \<rightharpoonup> pyval"

type_synonym addr = nat

type_synonym heap = "dict list"

definition dict_copy :: "heap \<Rightarrow> addr \<Rightarrow> heap \<times> addr" where
  "dict_copy h a = (h @ [h ! a], length h)"

definition dict_update :: "heap \<Rightarrow> addr \<Rightarrow> (string \<times> pyval) list \<Rightarrow> heap" where
  "dict_update h a kvs = h[a := fold (\<lambda>(k, v) d. d(k \<mapsto> v)) kvs (h ! a)]"

subsection \<open>The host\<close>

text \<open>
  \<^item> \<open>py3\<close>: the interpreter is Python 3;
  \<^item> \<open>has_bindeval\<close>: \<^verbatim>\<open>hasattr(vim, 'bindeval')\<close>;
  \<^item> \<open>current_buffer\<close>, \<open>buffers\<close>: \<^verbatim>\<open>vim.current.buffer\<close>, \<^verbatim>\<open>vim.buffers\<close>;
  \<^item> \<open>current_tabpage\<close>, \<open>list_tabpages\<close>: the functions of that name of
    \<^verbatim>\<open>powerline.bindings.vim\<close>;
  \<^item> \<open>changedtick\<close>: \<^verbatim>\<open>getbufvar(bufnr, 'changedtick')\<close>;
  \<^item> \<open>bindeval_getbufline\<close>: \<^verbatim>\<open>vim.bindeval('getbufline(bufnr, lnum)')\<close>, a list of
    byte strings;
  \<^item> \<open>eval_strtrans_getbufline\<close>: \<^verbatim>\<open>vim.eval('strtrans(getbufline(bufnr, lnum))')\<close>,
    a string (a \<^verbatim>\<open>str\<close>: text in Python 3) or an exception;
  \<^item> \<open>buffer_name\<close>: \<^verbatim>\<open>buffer_name(buffer)\<close> of \<^verbatim>\<open>powerline.bindings.vim\<close>;
  \<^item> \<open>decode_strtrans\<close>: \<^verbatim>\<open>.decode('utf-8', 'powerline_vim_strtrans_error')\<close>.
\<close>

record vim_host =
  py3 :: bool
  has_bindeval :: bool
  current_buffer :: buffer
  buffers :: "buffer list"
  current_tabpage :: tabpage
  list_tabpages :: "tabpage list"
  changedtick :: "pyval \<Rightarrow> int"
  bindeval_getbufline :: "pyval \<Rightarrow> nat \<Rightarrow> string list"
  eval_strtrans_getbufline :: "pyval \<Rightarrow> nat \<Rightarrow> py_error + string"
  buffer_name :: "buffer \<Rightarrow> string option"
  decode_strtrans :: "string \<Rightarrow> string"

subsection \<open>Fragment values\<close>

text \<open>
  A segment returns \<^verbatim>\<open>None\<close>, a string, or a list of dicts with the keys
  \<^verbatim>\<open>contents\<close>, \<^verbatim>\<open>highlight_group\<close> and, when set,
  \<^verbatim>\<open>divider_highlight_group\<close> and \<^verbatim>\<open>gradient_level\<close>.
\<close>

record segment_part =
  contents :: string
  highlight_group :: "string list"
  divider_highlight_group :: "string option"
  gradient_level :: "rat option"

datatype fragment = Absent | Text string | Parts "segment_part list"

subsection \<open>Reading \<^verbatim>\<open>segment_info\<close>\<close>

definition get_buffer :: "dict \<Rightarrow> py_error + buffer" where
  "get_buffer segment_info =
     (case segment_info ''buffer'' of
        None \<Rightarrow> Inl KeyError
      | Some (PBuffer b) \<Rightarrow> Inr b
      | Some _ \<Rightarrow> Inl AttributeError)"

definition get_window :: "dict \<Rightarrow> py_error + window" where
  "get_window segment_info =
     (case segment_info ''window'' of
        None \<Rightarrow> Inl KeyError
      | Some (PWindow w) \<Rightarrow> Inr w
      | Some _ \<Rightarrow> Inl AttributeError)"

subsection \<open>\<^verbatim>\<open>str\<close>, \<^verbatim>\<open>round\<close>, \<^verbatim>\<open>os.path.basename\<close>\<close>

fun str_nat :: "nat \<Rightarrow> string" where
  "str_nat n =
     (if n < 10 then [''0123456789'' ! n]
      else str_nat (n div 10) @ [''0123456789'' ! (n mod 10)])"

declare str_nat.simps [simp del]

definition py_str :: "int \<Rightarrow> string" where
  "py_str i = (if i < 0 then CHR ''-'' # str_nat (nat (- i)) else str_nat (nat i))"

text \<open>
  \<^verbatim>\<open>int(round(x))\<close>: Python 2 rounds a half away from zero, Python 3 to the even
  neighbour.
\<close>

definition py_round :: "bool \<Rightarrow> rat \<Rightarrow> int" where
  "py_round three x =
     (let f = \<lfloor>x\<rfloor>; d = x - of_int f in
      if d < 1 / 2 then f
      else if 1 / 2 < d then f + 1
      else if three then (if even f then f else f + 1)
      else (if 0 \<le> x then f + 1 else f))"

definition basename :: "string \<Rightarrow> string" where
  "basename p = rev (takeWhile (\<lambda>c. c \<noteq> CHR ''/'') (rev p))"

subsection \<open>Floats\<close>

text \<open>
  A finite double is a 53-bit integer times a power of two. \<open>scale_down\<close> and
  \<open>scale_up\<close> bring a positive rational into the range from \<open>2 ^ 52\<close> to \<open>2 ^ 53\<close>,
  counting the halvings and doublings in the exponent (not below \<open>- 1074\<close>, the exponent
  of the subnormal numbers); \<open>round_double\<close> then rounds to the nearest integer, a half
  to the even neighbour, and scales back. It is the rounding of every float operation
  and of a float literal.
\<close>

function scale_down :: "rat \<Rightarrow> int \<Rightarrow> rat \<times> int" where
  "scale_down m e = (if 2 ^ 53 \<le> m then scale_down (m / 2) (e + 1) else (m, e))"
  by pat_completeness auto
termination
proof (relation "measure (\<lambda>(m, e). nat \<lfloor>m\<rfloor>)")
  show "wf (measure (\<lambda>(m, e). nat \<lfloor>m\<rfloor>))" by simp
next
  fix m :: rat and e :: int
  assume big: "2 ^ 53 \<le> m"
  then have "m / 2 \<le> m - 1" by simp
  then have "\<lfloor>m / 2\<rfloor> \<le> \<lfloor>m - 1\<rfloor>" by (rule floor_mono)
  then have "\<lfloor>m / 2\<rfloor> < \<lfloor>m\<rfloor>" by simp
  moreover from big have "0 < \<lfloor>m\<rfloor>" by simp
  ultimately show "((m / 2, e + 1), (m, e)) \<in> measure (\<lambda>(m, e). nat \<lfloor>m\<rfloor>)" by simp
qed

function scale_up :: "rat \<Rightarrow> int \<Rightarrow> rat \<times> int" where
  "scale_up m e = (if m < 2 ^ 52 \<and> - 1074 < e then scale_up (2 * m) (e - 1) else (m, e))"
  by pat_completeness auto
termination
  by (relation "measure (\<lambda>(m, e). nat (e + 1074))") auto

declare scale_down.simps [simp del] scale_up.simps [simp del]

definition pow2 :: "int \<Rightarrow> rat" where
  "pow2 e = (if 0 \<le> e then 2 ^ nat e else 1 / 2 ^ nat (- e))"

definition round_half_even :: "rat \<Rightarrow> int" where
  "round_half_even x =
     (let f = \<lfloor>x\<rfloor>; d = x - of_int f in
      if d < 1 / 2 then f
      else if 1 / 2 < d then f + 1
      else if even f then f else f + 1)"

definition round_double :: "rat \<Rightarrow> rat" where
  "round_double x =
     (if x = 0 then 0
      else
        (case scale_down \<bar>x\<bar> 0 of
           (m1, e1) \<Rightarrow>
             (case scale_up m1 e1 of
                (m, e) \<Rightarrow> sgn x * of_int (round_half_even m) * pow2 e)))"

text \<open>
  An \<^verbatim>\<open>int\<close> operand of a float operation is converted first: rounded like any other
  number, and an \<^verbatim>\<open>OverflowError\<close> when the rounded value is beyond the largest double.
\<close>

definition float_of_int :: "int \<Rightarrow> py_error + rat" where
  "float_of_int i =
     (if 2 ^ 1024 \<le> \<bar>round_double (of_int i)\<bar> then Inl OverflowError
      else Inr (round_double (of_int i)))"

text \<open>
  A float literal, and the product, the quotient and the sum of two doubles, for results
  within the range of the doubles. (In the listers the product is below its right
  operand, which is a double, and the sum is at most twice the product or two;
  \<^verbatim>\<open>line_percent\<close> tests its product.)
\<close>

definition float_literal :: "rat \<Rightarrow> rat" where
  "float_literal x = round_double x"

definition float_mul :: "rat \<Rightarrow> rat \<Rightarrow> rat" where
  "float_mul a b = round_double (a * b)"

definition float_div :: "rat \<Rightarrow> rat \<Rightarrow> rat" where
  "float_div a b = round_double (a / b)"

definition float_add :: "rat \<Rightarrow> rat \<Rightarrow> rat" where
  "float_add a b = round_double (a + b)"

subsection \<open>\<^verbatim>\<open>window_cached\<close>\<close>

text \<open>
  The decorator's closure holds \<^verbatim>\<open>cache\<close>; the model passes it in and returns it.
  \<^verbatim>\<open>func(**kwargs)\<close> either raises or returns a fragment; \<^verbatim>\<open>cache.get\<close> gives
  \<^verbatim>\<open>None\<close> for a key that is not there.
\<close>

type_synonym wcache = "pyval \<rightharpoonup> fragment"

definition window_cached ::
  "('kw \<Rightarrow> py_error + fragment) \<Rightarrow> wcache \<Rightarrow> dict \<Rightarrow> 'kw \<Rightarrow> (py_error + fragment) \<times> wcache" where
  "window_cached func cache segment_info kwargs =
     (case segment_info ''window_id'' of
        None \<Rightarrow> (Inl KeyError, cache)
      | Some window_id \<Rightarrow>
          (case segment_info ''mode'' of
             None \<Rightarrow> (Inl KeyError, cache)
           | Some m \<Rightarrow>
               if m = PStr ''nc'' then
                 (Inr (case cache window_id of None \<Rightarrow> Absent | Some r \<Rightarrow> r), cache)
               else
                 (case func kwargs of
                    Inl e \<Rightarrow> (Inl e, cache)
                  | Inr r \<Rightarrow> (Inr r, cache(window_id \<mapsto> r)))))"

text \<open>
  A run of calls of one decorated function: each call brings its \<^verbatim>\<open>segment_info\<close> and
  what the wrapped function computes at that moment.
\<close>

fun window_cached_run ::
  "wcache \<Rightarrow> (('kw \<Rightarrow> py_error + fragment) \<times> dict \<times> 'kw) list \<Rightarrow> wcache" where
  "window_cached_run cache [] = cache"
| "window_cached_run cache ((func, segment_info, kwargs) # calls) =
     window_cached_run (snd (window_cached func cache segment_info kwargs)) calls"

subsection \<open>\<^verbatim>\<open>mode\<close>\<close>

definition vim_modes :: "(string \<times> string) list" where
  "vim_modes =
     [(''n'', ''NORMAL''),
      (''no'', [CHR ''N'', CHR 0xB7] @ ''OPER''),
      (''v'', ''VISUAL''),
      (''V'', [CHR ''V'', CHR 0xB7] @ ''LINE''),
      (''^V'', [CHR ''V'', CHR 0xB7] @ ''BLCK''),
      (''s'', ''SELECT''),
      (''S'', [CHR ''S'', CHR 0xB7] @ ''LINE''),
      (''^S'', [CHR ''S'', CHR 0xB7] @ ''BLCK''),
      (''i'', ''INSERT''),
      (''R'', ''REPLACE''),
      (''Rv'', [CHR ''V'', CHR 0xB7] @ ''RPLCE''),
      (''c'', ''COMMND''),
      (''cv'', ''VIM EX''),
      (''ce'', ''EX''),
      (''r'', ''PROMPT''),
      (''rm'', ''MORE''),
      (''r?'', ''CONFIRM''),
      (''!'', ''SHELL'')]"

text \<open>\<^verbatim>\<open>d[key]\<close> on a dict with string keys: a \<^verbatim>\<open>KeyError\<close> for any other key.\<close>

definition getitem :: "(string \<times> string) list \<Rightarrow> pyval \<Rightarrow> py_error + fragment" where
  "getitem d key =
     (case key of
        PStr k \<Rightarrow> (case map_of d k of None \<Rightarrow> Inl KeyError | Some v \<Rightarrow> Inr (Text v))
      | _ \<Rightarrow> Inl KeyError)"

text \<open>\<open>override\<close> is \<open>None\<close> for Python's \<^verbatim>\<open>None\<close>; an empty dict is falsy as well.\<close>

definition mode :: "dict \<Rightarrow> (string \<times> string) list option \<Rightarrow> py_error + fragment" where
  "mode segment_info override =
     (case segment_info ''mode'' of
        None \<Rightarrow> Inl KeyError
      | Some m \<Rightarrow>
          if m = PStr ''nc'' then Inr Absent
          else
            (case override of
               None \<Rightarrow> getitem vim_modes m
             | Some ov \<Rightarrow>
                 if ov = [] then getitem vim_modes m
                 else
                   (case getitem ov m of
                      Inl KeyError \<Rightarrow> getitem vim_modes m
                    | Inl e \<Rightarrow> Inl e
                    | Inr r \<Rightarrow> Inr r)))"

subsection \<open>\<^verbatim>\<open>file_name\<close>\<close>

definition file_name :: "vim_host \<Rightarrow> dict \<Rightarrow> bool \<Rightarrow> string \<Rightarrow> py_error + fragment" where
  "file_name vim segment_info display_no_file no_file_text =
     (case get_buffer segment_info of
        Inl e \<Rightarrow> Inl e
      | Inr b \<Rightarrow>
          (let no_file =
                 (if display_no_file then
                    Parts [\<lparr>contents = no_file_text,
                            highlight_group = [''file_name_no_file'', ''file_name''],
                            divider_highlight_group = None,
                            gradient_level = None\<rparr>]
                  else Absent)
           in
           case buffer_name vim b of
             None \<Rightarrow> Inr no_file
           | Some name \<Rightarrow>
               if name = [] then Inr no_file
               else Inr (Text (decode_strtrans vim (basename name)))))"

subsection \<open>\<^verbatim>\<open>line_percent\<close>\<close>

text \<open>
  \<^verbatim>\<open>line_current * 100.0 / line_last\<close>: both integers are converted to floats, the
  product and the quotient are rounded. A zero divisor raises \<^verbatim>\<open>ZeroDivisionError\<close>;
  a product beyond the largest double is infinite, and so is the quotient, which
  \<^verbatim>\<open>int(round(percentage))\<close> refuses with an \<^verbatim>\<open>OverflowError\<close>.
\<close>

definition line_percent :: "vim_host \<Rightarrow> dict \<Rightarrow> bool \<Rightarrow> py_error + fragment" where
  "line_percent vim segment_info gradient =
     (case get_window segment_info of
        Inl e \<Rightarrow> Inl e
      | Inr w \<Rightarrow>
          (case get_buffer segment_info of
             Inl e \<Rightarrow> Inl e
           | Inr b \<Rightarrow>
               (let line_current = fst (win_cursor w);
                    line_last = length (buf_lines b)
                in
                case float_of_int line_current of
                  Inl e \<Rightarrow> Inl e
                | Inr x \<Rightarrow>
                    (case float_of_int (int line_last) of
                       Inl e \<Rightarrow> Inl e
                     | Inr y \<Rightarrow>
                         if y = 0 then Inl ZeroDivisionError
                         else if 2 ^ 1024 \<le> \<bar>float_mul x 100\<bar> then Inl OverflowError
                         else
                           (let percentage = float_div (float_mul x 100) y in
                            if \<not> gradient then
                              Inr (Text (py_str (py_round (py3 vim) percentage)))
                            else
                              Inr (Parts
                                [\<lparr>contents = py_str (py_round (py3 vim) percentage),
                                  highlight_group = [''line_percent_gradient'', ''line_percent''],
                                  divider_highlight_group = None,
                                  gradient_level = Some percentage\<rparr>]))))))"

subsection \<open>\<^verbatim>\<open>trailing_whitespace\<close>\<close>

text \<open>
  \<^verbatim>\<open>bws = b' \t'\<close> is a byte string. \<^verbatim>\<open>sws = str(bws)\<close> is the same string in
  Python 2; in Python 3 \<^verbatim>\<open>str\<close> of a bytes object is its printed form, the six
  characters \<^verbatim>\<open>b\<close>, quote, space, backslash, \<^verbatim>\<open>t\<close>, quote.
\<close>

definition bws :: string where
  "bws = [CHR '' '', CHR 0x09]"

definition sws :: "bool \<Rightarrow> string" where
  "sws three =
     (if three then [CHR ''b'', CHR 0x27, CHR '' '', CHR 0x5C, CHR ''t'', CHR 0x27] else bws)"

text \<open>\<^verbatim>\<open>x in y\<close> on two strings (or two byte strings): \<open>x\<close> occurs in \<open>y\<close>.\<close>

fun py_in :: "string \<Rightarrow> string \<Rightarrow> bool" where
  "py_in x [] = (x = [])"
| "py_in x (c # cs) = (take (length x) (c # cs) = x \<or> py_in x cs)"

text \<open>
  The body of the loop for line \<open>i\<close> (0-based): the value of \<^verbatim>\<open>has_trailing_ws\<close>, as
  a truth value, or the exception raised. With \<^verbatim>\<open>bindeval\<close> the variable
  \<^verbatim>\<open>line\<close> is the list that \<^verbatim>\<open>getbufline\<close> returns and \<^verbatim>\<open>line[-1]\<close> its last
  item, a byte string; without it \<^verbatim>\<open>line\<close> is a \<^verbatim>\<open>str\<close>, and in Python 3
  testing a \<^verbatim>\<open>str\<close> for membership in the bytes \<^verbatim>\<open>bws\<close> is a type error.
\<close>

definition has_trailing_ws :: "vim_host \<Rightarrow> pyval \<Rightarrow> nat \<Rightarrow> bufline \<Rightarrow> py_error + bool" where
  "has_trailing_ws vim bufnr i l =
     (case l of
        Line line \<Rightarrow> Inr (line \<noteq> [] \<and> py_in [last line] (sws (py3 vim)))
      | Undecodable \<Rightarrow>
          if has_bindeval vim then
            (case bindeval_getbufline vim bufnr (i + 1) of
               [] \<Rightarrow> Inl IndexError
             | x # xs \<Rightarrow> Inr (py_in (last (x # xs)) bws))
          else
            (case eval_strtrans_getbufline vim bufnr (i + 1) of
               Inl e \<Rightarrow> Inl e
             | Inr line \<Rightarrow>
                 if line = [] then Inl IndexError
                 else if py3 vim then Inl TypeError
                 else Inr (py_in [last line] bws)))"

text \<open>
  The \<^verbatim>\<open>for\<close> loop over \<^verbatim>\<open>range(len(buf))\<close>. The result is what the variables
  \<^verbatim>\<open>i\<close> and \<^verbatim>\<open>has_trailing_ws\<close> hold after the loop; \<open>None\<close> when they were
  never assigned.
\<close>

fun scan_lines ::
  "vim_host \<Rightarrow> pyval \<Rightarrow> nat \<Rightarrow> bufline list \<Rightarrow> (nat \<times> bool) option \<Rightarrow>
   py_error + (nat \<times> bool) option" where
  "scan_lines vim bufnr i [] vars = Inr vars"
| "scan_lines vim bufnr i (l # ls) vars =
     (case has_trailing_ws vim bufnr i l of
        Inl e \<Rightarrow> Inl e
      | Inr flag \<Rightarrow>
          if flag then Inr (Some (i, True))
          else scan_lines vim bufnr (i + 1) ls (Some (i, False)))"

definition scan_buffer :: "vim_host \<Rightarrow> pyval \<Rightarrow> buffer \<Rightarrow> py_error + fragment" where
  "scan_buffer vim bufnr buf =
     (case scan_lines vim bufnr 0 (buf_lines buf) None of
        Inl e \<Rightarrow> Inl e
      | Inr None \<Rightarrow> Inl UnboundLocalError
      | Inr (Some (i, flag)) \<Rightarrow>
          if flag then
            Inr (Parts [\<lparr>contents = py_str (int i + 1),
                         highlight_group = [''trailing_whitespace'', ''warning''],
                         divider_highlight_group = None,
                         gradient_level = None\<rparr>])
          else Inr Absent)"

text \<open>
  The module's global \<^verbatim>\<open>trailing_whitespace_cache\<close>: \<open>None\<close> until the first call,
  then a \<^verbatim>\<open>defaultdict\<close> whose missing entries read as \<^verbatim>\<open>(0, None)\<close> and are
  stored when read. \<open>scans\<close> is not a variable of the program: it counts how often the
  branch that scans the buffer was entered.
\<close>

type_synonym tw_cache = "pyval \<rightharpoonup> int \<times> fragment"

record tw_state =
  trailing_whitespace_cache :: "tw_cache option"
  scans :: nat

text \<open>
  Modelled from the spec: \<^verbatim>\<open>register_buffer_cache\<close> of \<^verbatim>\<open>powerline.bindings.vim\<close>
  is not in the sources at hand; it hands back the mapping it is given ("one mapping entry
  per buffer observed; entries are never evicted").
\<close>

definition register_buffer_cache :: "tw_cache \<Rightarrow> tw_cache" where
  "register_buffer_cache cachedict = cachedict"

definition defaultdict_getitem :: "tw_cache \<Rightarrow> pyval \<Rightarrow> (int \<times> fragment) \<times> tw_cache" where
  "defaultdict_getitem c k =
     (case c k of
        Some entry \<Rightarrow> (entry, c)
      | None \<Rightarrow> ((0, Absent), c(k \<mapsto> (0, Absent))))"

definition trailing_whitespace ::
  "vim_host \<Rightarrow> tw_state \<Rightarrow> dict \<Rightarrow> (py_error + fragment) \<times> tw_state" where
  "trailing_whitespace vim st segment_info =
     (let c0 = (case trailing_whitespace_cache st of
                  None \<Rightarrow> register_buffer_cache Map.empty
                | Some c \<Rightarrow> c)
      in
      case segment_info ''bufnr'' of
        None \<Rightarrow> (Inl KeyError, st\<lparr>trailing_whitespace_cache := Some c0\<rparr>)
      | Some bufnr \<Rightarrow>
          (let tick = changedtick vim bufnr;
               (entry, c1) = defaultdict_getitem c0 bufnr
           in
           if fst entry = tick then
             (Inr (snd entry), st\<lparr>trailing_whitespace_cache := Some c1\<rparr>)
           else
             (let st1 = st\<lparr>trailing_whitespace_cache := Some c1, scans := scans st + 1\<rparr> in
              case get_buffer segment_info of
                Inl e \<Rightarrow> (Inl e, st1)
              | Inr buf \<Rightarrow>
                  (case scan_buffer vim bufnr buf of
                     Inl e \<Rightarrow> (Inl e, st1)
                   | Inr ret \<Rightarrow>
                       (Inr ret,
                        st1\<lparr>trailing_whitespace_cache := Some (c1(bufnr \<mapsto> (tick, ret)))\<rparr>)))))"

text \<open>
  A run of calls: each call has its own host state (the counter and the lines change
  between redraws) and its \<^verbatim>\<open>segment_info\<close>. An exception ends one call, not the run.
\<close>

fun trailing_whitespace_run ::
  "tw_state \<Rightarrow> (vim_host \<times> dict) list \<Rightarrow> (py_error + fragment) list \<times> tw_state" where
  "trailing_whitespace_run st [] = ([], st)"
| "trailing_whitespace_run st ((vim, segment_info) # calls) =
     (let (r, st1) = trailing_whitespace vim st segment_info;
          (rs, st2) = trailing_whitespace_run st1 calls
      in (r # rs, st2))"

subsection \<open>The listers\<close>

definition tabpage_updated_segment_info :: "heap \<Rightarrow> addr \<Rightarrow> tabpage \<Rightarrow> heap \<times> addr" where
  "tabpage_updated_segment_info h segment_info tabpage =
     (let (h1, copy) = dict_copy h segment_info;
          window = tab_window tabpage;
          buffer = win_buffer window
      in
      (dict_update h1 copy
         [(''tabpage'', PTabpage tabpage),
          (''tabnr'', PInt (tab_number tabpage)),
          (''window'', PWindow window),
          (''winnr'', PInt (win_number window)),
          (''window_id'',
             PInt (case map_of (win_vars window) ''powerline_window_id'' of
                     None \<Rightarrow> - 1
                   | Some v \<Rightarrow> v)),
          (''buffer'', PBuffer buffer),
          (''bufnr'', PInt (buf_number buffer))],
       copy))"

definition buffer_updated_segment_info :: "heap \<Rightarrow> addr \<Rightarrow> buffer \<Rightarrow> heap \<times> addr" where
  "buffer_updated_segment_info h segment_info buffer =
     (let (h1, copy) = dict_copy h segment_info in
      (dict_update h1 copy
         [(''window'', PNone),
          (''winnr'', PNone),
          (''window_id'', PNone),
          (''buffer'', PBuffer buffer),
          (''bufnr'', PInt (buf_number buffer))],
       copy))"

text \<open>
  \<^verbatim>\<open>add_multiplier\<close>, the local function of both listers:
  \<^verbatim>\<open>1 + (0.001 * abs(number - cur_nr))\<close>, where the distance is converted to a float,
  multiplied by the double \<^verbatim>\<open>0.001\<close> and added to \<^verbatim>\<open>1.0\<close>.
\<close>

definition add_multiplier :: "int \<Rightarrow> int \<Rightarrow> dict \<Rightarrow> py_error + dict" where
  "add_multiplier number cur_nr dct =
     (case float_of_int \<bar>number - cur_nr\<bar> of
        Inl e \<Rightarrow> Inl e
      | Inr distance \<Rightarrow>
          Inr (dct(''priority_multiplier'' \<mapsto>
                 PFloat (float_add 1 (float_mul (float_literal (1 / 1000)) distance)))))"

text \<open>
  The list comprehensions: one (context, override) pair per tab page or buffer, in the
  order of the host's list. The context of a pair is the address of its dict. An
  exception in one element ends the comprehension.
\<close>

fun tablister_items ::
  "tabpage \<Rightarrow> heap \<Rightarrow> addr \<Rightarrow> tabpage list \<Rightarrow> py_error + heap \<times> (addr \<times> dict) list" where
  "tablister_items cur_tabpage h segment_info [] = Inr (h, [])"
| "tablister_items cur_tabpage h segment_info (tabpage # tabpages) =
     (let (h1, ctx) = tabpage_updated_segment_info h segment_info tabpage in
      case add_multiplier (tab_number tabpage) (tab_number cur_tabpage)
             [''mode'' \<mapsto> PStr (if tabpage = cur_tabpage then ''tab'' else ''nc'')] of
        Inl e \<Rightarrow> Inl e
      | Inr dct \<Rightarrow>
          (case tablister_items cur_tabpage h1 segment_info tabpages of
             Inl e \<Rightarrow> Inl e
           | Inr (h2, rest) \<Rightarrow> Inr (h2, (ctx, dct) # rest)))"

definition tablister ::
  "vim_host \<Rightarrow> heap \<Rightarrow> addr \<Rightarrow> py_error + heap \<times> (addr \<times> dict) list" where
  "tablister vim h segment_info =
     tablister_items (current_tabpage vim) h segment_info (list_tabpages vim)"

fun bufferlister_items ::
  "buffer \<Rightarrow> heap \<Rightarrow> addr \<Rightarrow> buffer list \<Rightarrow> py_error + heap \<times> (addr \<times> dict) list" where
  "bufferlister_items cur_buffer h segment_info [] = Inr (h, [])"
| "bufferlister_items cur_buffer h segment_info (buffer # bufs) =
     (let (h1, ctx) = buffer_updated_segment_info h segment_info buffer in
      case add_multiplier (buf_number buffer) (buf_number cur_buffer)
             [''mode'' \<mapsto> PStr (if buffer = cur_buffer then ''tab'' else ''nc'')] of
        Inl e \<Rightarrow> Inl e
      | Inr dct \<Rightarrow>
          (case bufferlister_items cur_buffer h1 segment_info bufs of
             Inl e \<Rightarrow> Inl e
           | Inr (h2, rest) \<Rightarrow> Inr (h2, (ctx, dct) # rest)))"

definition bufferlister ::
  "vim_host \<Rightarrow> heap \<Rightarrow> addr \<Rightarrow> py_error + heap \<times> (addr \<times> dict) list" where
  "bufferlister vim h segment_info =
     bufferlister_items (current_buffer vim) h segment_info (buffers vim)"

definition tabbuflister ::
  "vim_host \<Rightarrow> heap \<Rightarrow> addr \<Rightarrow> py_error + heap \<times> (addr \<times> dict) list" where
  "tabbuflister vim h segment_info =
     (if length (list_tabpages vim) = 1 then bufferlister vim h segment_info
      else tablister vim h segment_info)"

subsection \<open>Reading the cache of \<^verbatim>\<open>trailing_whitespace\<close>\<close>

text \<open>
  The entry stored for a buffer, if any, and the entry a lookup sees: a missing one reads
  as the default \<^verbatim>\<open>(0, None)\<close> of the \<^verbatim>\<open>defaultdict\<close>.
\<close>

definition lookup_entry :: "tw_state \<Rightarrow> pyval \<Rightarrow> (int \<times> fragment) option" where
  "lookup_entry st k =
     (case trailing_whitespace_cache st of None \<Rightarrow> None | Some c \<Rightarrow> c k)"

definition entry_or_default :: "tw_state \<Rightarrow> pyval \<Rightarrow> int \<times> fragment" where
  "entry_or_default st k = (case lookup_entry st k of None \<Rightarrow> (0, Absent) | Some e \<Rightarrow> e)"

text \<open>The counters a run of calls reads for buffer \<open>k\<close>, in order.\<close>

definition ticks :: "pyval \<Rightarrow> (vim_host \<times> dict) list \<Rightarrow> int list" where
  "ticks k calls = map (\<lambda>(vim, segment_info). changedtick vim k) calls"

text \<open>A call is for buffer \<open>k\<close> and its scan, if it runs, raises nothing.\<close>

definition call_ok :: "pyval \<Rightarrow> vim_host \<times> dict \<Rightarrow> bool" where
  "call_ok k call =
     (case call of (vim, segment_info) \<Rightarrow>
        segment_info ''bufnr'' = Some k \<and>
        (case get_buffer segment_info of
           Inl e \<Rightarrow> False
         | Inr b \<Rightarrow> (case scan_buffer vim k b of Inl e \<Rightarrow> False | Inr r \<Rightarrow> True)))"

subsection \<open>Example hosts\<close>

definition example_buffer :: "int \<Rightarrow> buffer" where
  "example_buffer n = \<lparr>buf_number = n, buf_lines = [Line ''text'']\<rparr>"

definition example_tabpage :: "int \<Rightarrow> tabpage" where
  "example_tabpage n =
     \<lparr>tab_number = n,
      tab_window = \<lparr>win_number = 1, win_buffer = example_buffer n,
                    win_vars = [(''powerline_window_id'', 10 + n)], win_cursor = (1, 0)\<rparr>\<rparr>"

definition example_host :: vim_host where
  "example_host =
     \<lparr>py3 = False, has_bindeval = True,
      current_buffer = example_buffer 1, buffers = [example_buffer 1],
      current_tabpage = example_tabpage 1, list_tabpages = [example_tabpage 1],
      changedtick = (\<lambda>bufnr. 1),
      bindeval_getbufline = (\<lambda>bufnr lnum. []),
      eval_strtrans_getbufline = (\<lambda>bufnr lnum. Inl VimError),
      buffer_name = (\<lambda>b. None),
      decode_strtrans = (\<lambda>s. s)\<rparr>"

definition hundred_lines :: buffer where
  "hundred_lines = \<lparr>buf_number = 1, buf_lines = replicate 100 (Line ''x'')\<rparr>"

definition window_at_50 :: window where
  "window_at_50 =
     \<lparr>win_number = 1, win_buffer = hundred_lines, win_vars = [], win_cursor = (50, 0)\<rparr>"

text \<open>A call made for window \<open>w\<close> while it is focused: its mode is not \<^verbatim>\<open>nc\<close>.\<close>

definition focused_call :: "pyval \<Rightarrow> ('kw \<Rightarrow> py_error + fragment) \<times> dict \<times> 'kw \<Rightarrow> bool" where
  "focused_call w call =
     (case call of (func, segment_info, kwargs) \<Rightarrow>
        segment_info ''window_id'' = Some w \<and> segment_info ''mode'' \<noteq> Some (PStr ''nc''))"

definition focused_info :: "int \<Rightarrow> dict" where
  "focused_info w = [''window_id'' \<mapsto> PInt w, ''mode'' \<mapsto> PStr ''n'']"

definition nc_info :: "int \<Rightarrow> dict" where
  "nc_info w = [''window_id'' \<mapsto> PInt w, ''mode'' \<mapsto> PStr ''nc'']"

definition returning :: "string \<Rightarrow> unit \<Rightarrow> py_error + fragment" where
  "returning s kwargs = Inr (Text s)"

definition tw_call :: "int \<Rightarrow> bufline list \<Rightarrow> vim_host \<times> dict" where
  "tw_call tick ls =
     (example_host\<lparr>changedtick := (\<lambda>bufnr. tick)\<rparr>,
      [''bufnr'' \<mapsto> PInt 1, ''buffer'' \<mapsto> PBuffer \<lparr>buf_number = 1, buf_lines = ls\<rparr>])"

definition empty_tw_state :: tw_state where
  "empty_tw_state = \<lparr>trailing_whitespace_cache = None, scans = 0\<rparr>"

definition warning_at :: "string \<Rightarrow> fragment" where
  "warning_at n =
     Parts [\<lparr>contents = n, highlight_group = [''trailing_whitespace'', ''warning''],
             divider_highlight_group = None, gradient_level = None\<rparr>]"

definition three_buffers_host :: vim_host where
  "three_buffers_host =
     example_host\<lparr>current_buffer := example_buffer 1,
       buffers := [example_buffer 1, example_buffer 2, example_buffer 3],
       list_tabpages := [example_tabpage 1]\<rparr>"

definition py3_host :: vim_host where
  "py3_host = example_host\<lparr>py3 := True\<rparr>"

definition old_py3_host :: vim_host where
  "old_py3_host =
     example_host\<lparr>py3 := True, has_bindeval := False,
       eval_strtrans_getbufline := (\<lambda>bufnr lnum. Inr [CHR ''c'', CHR ''a'', CHR ''f'', CHR 0xE9, CHR '' ''])\<rparr>"

section \<open>Float arithmetic at the inputs of the examples\<close>

lemma floor_numeral_div: "\<lfloor>(numeral a :: rat) / numeral b\<rfloor> = numeral a div numeral b"
  using floor_divide_of_int_eq [of "numeral a" "numeral b", where ?'a = rat] by simp

lemmas float_eval =
  round_double_def scale_down.simps round_half_even_def pow2_def Let_def floor_numeral_div

lemma round_double_0: "round_double 0 = 0"
  by (simp add: round_double_def)

lemma scale_up_1: "scale_up 1 0 = (2 ^ 52, - 52)"
  by (simp add: scale_up.simps)

lemma round_double_1: "round_double 1 = 1"
  by (simp add: float_eval scale_up_1)

lemma scale_up_2: "scale_up 2 0 = (2 ^ 52, - 51)"
  by (simp add: scale_up.simps)

lemma round_double_2: "round_double 2 = 2"
  by (simp add: float_eval scale_up_2)

lemma float_of_int_0: "float_of_int 0 = Inr 0"
  by (simp add: float_of_int_def round_double_0)

lemma float_of_int_1: "float_of_int 1 = Inr 1"
  by (simp add: float_of_int_def round_double_1)

lemma float_of_int_2: "float_of_int 2 = Inr 2"
  by (simp add: float_of_int_def round_double_2)

text \<open>The double that the literal \<^verbatim>\<open>0.001\<close> denotes.\<close>

lemma scale_up_milli: "scale_up (1 / 1000) 0 = (576460752303423488 / 125, - 62)"
  by (simp add: scale_up.simps)

lemma float_literal_milli: "float_literal (1 / 1000) = 1152921504606847 / 1152921504606846976"
  by (simp add: float_literal_def float_eval scale_up_milli)

lemma scale_up_milli_double:
  "scale_up (1152921504606847 / 1152921504606846976) 0 = (4611686018427388, - 62)"
  by (simp add: scale_up.simps)

lemma round_double_milli:
  "round_double (1152921504606847 / 1152921504606846976) =
   1152921504606847 / 1152921504606846976"
  by (simp add: float_eval scale_up_milli_double)

text \<open>\<^verbatim>\<open>1 + (0.001 * 0)\<close> and \<^verbatim>\<open>1 + (0.001 * 1)\<close>; the latter is the double \<^verbatim>\<open>1.001\<close>.\<close>

lemma multiplier_0: "float_add 1 (float_mul (float_literal (1 / 1000)) 0) = 1"
  by (simp add: float_add_def float_mul_def round_double_0 round_double_1)

lemma scale_up_sum_1:
  "scale_up (1154074426111453823 / 1152921504606846976) 0 = (1154074426111453823 / 256, - 52)"
  by (simp add: scale_up.simps)

lemma round_double_sum_1:
  "round_double (1154074426111453823 / 1152921504606846976) =
   2254051613498933 / 2251799813685248"
  by (simp add: float_eval scale_up_sum_1)

lemma multiplier_1:
  "float_add 1 (float_mul (float_literal (1 / 1000)) 1) = 2254051613498933 / 2251799813685248"
  by (simp add: float_add_def float_mul_def float_literal_milli round_double_milli
      round_double_sum_1)

lemma scale_up_1001: "scale_up (1001 / 1000) 0 = (563512903374733312 / 125, - 52)"
  by (simp add: scale_up.simps)

lemma float_literal_1001: "float_literal (1001 / 1000) = 2254051613498933 / 2251799813685248"
  by (simp add: float_literal_def float_eval scale_up_1001)

text \<open>
  \<^verbatim>\<open>1 + (0.001 * 122)\<close>: the sum is a tie and rounds to the even neighbour, which is
  \<^verbatim>\<open>1.1219999999999999\<close>, the double below the one that the literal \<^verbatim>\<open>1.122\<close>
  denotes.
\<close>

lemma scale_up_122: "scale_up 122 0 = (8584986789675008, - 46)"
  by (simp add: scale_up.simps)

lemma round_double_122: "round_double 122 = 122"
  by (simp add: float_eval scale_up_122)

lemma float_of_int_122: "float_of_int 122 = Inr 122"
  by (simp add: float_of_int_def round_double_122)

lemma scale_up_product_122:
  "scale_up (70328211781017667 / 576460752303423488) 0 = (70328211781017667 / 8, - 56)"
  by (simp add: scale_up.simps)

lemma round_double_product_122:
  "round_double (70328211781017667 / 576460752303423488) =
   1098878309078401 / 9007199254740992"
  by (simp add: float_eval scale_up_product_122)

lemma scale_up_sum_122:
  "scale_up (10106077563819393 / 9007199254740992) 0 = (10106077563819393 / 2, - 52)"
  by (simp add: scale_up.simps)

lemma round_double_sum_122:
  "round_double (10106077563819393 / 9007199254740992) = 78953730967339 / 70368744177664"
  by (simp add: float_eval scale_up_sum_122)

lemma multiplier_122:
  "float_add 1 (float_mul (float_literal (1 / 1000)) 122) = 78953730967339 / 70368744177664"
  by (simp add: float_add_def float_mul_def float_literal_milli round_double_product_122
      round_double_sum_122)

lemma scale_up_1122: "scale_up (561 / 500) 0 = (631629847738712064 / 125, - 52)"
  by (simp add: scale_up.simps)

lemma float_literal_1122: "float_literal (1122 / 1000) = 5053038781909697 / 4503599627370496"
  by (simp add: float_literal_def float_eval scale_up_1122)

lemma multiplier_122_below_literal:
  "float_add 1 (float_mul (float_literal (1 / 1000)) 122) < float_literal (1122 / 1000)"
  unfolding multiplier_122 float_literal_1122 by simp

text \<open>\<^verbatim>\<open>50 * 100.0 / 100\<close>.\<close>

lemma scale_up_50: "scale_up 50 0 = (7036874417766400, - 47)"
  by (simp add: scale_up.simps)

lemma round_double_50: "round_double 50 = 50"
  by (simp add: float_eval scale_up_50)

lemma scale_up_100: "scale_up 100 0 = (7036874417766400, - 46)"
  by (simp add: scale_up.simps)

lemma round_double_100: "round_double 100 = 100"
  by (simp add: float_eval scale_up_100)

lemma scale_up_5000: "scale_up 5000 0 = (5497558138880000, - 40)"
  by (simp add: scale_up.simps)

lemma round_double_5000: "round_double 5000 = 5000"
  by (simp add: float_eval scale_up_5000)

lemma float_of_int_50: "float_of_int 50 = Inr 50"
  by (simp add: float_of_int_def round_double_50)

lemma float_of_int_100: "float_of_int 100 = Inr 100"
  by (simp add: float_of_int_def round_double_100)

lemma percentage_50_of_100: "float_mul 50 100 = 5000" "float_div 5000 100 = 50"
  by (simp_all add: float_mul_def float_div_def round_double_5000 round_double_50)

section \<open>Leaf segments\<close>

subsection \<open>\<^verbatim>\<open>mode\<close>\<close>

lemma vim_modes_nc: "map_of vim_modes ''nc'' = None"
  by (simp add: vim_modes_def)

text \<open>
  Claim C7. For a current mode \<open>m\<close> that is a key of the table \<^verbatim>\<open>vim_modes\<close>: without an
  override the segment returns the table's string for \<open>m\<close>; with an override that has the
  key \<open>m\<close> it returns the override's string; with an override that lacks \<open>m\<close> (the empty
  one included) it returns the table's string. It raises nothing and never returns
  \<^verbatim>\<open>None\<close>.
\<close>

theorem mode_override_fallback:
  assumes known: "map_of vim_modes m = Some s"
    and cur: "segment_info ''mode'' = Some (PStr m)"
  shows "mode segment_info None = Inr (Text s)
    \<and> (\<forall>ov t. map_of ov m = Some t \<longrightarrow> mode segment_info (Some ov) = Inr (Text t))
    \<and> (\<forall>ov. map_of ov m = None \<longrightarrow> mode segment_info (Some ov) = Inr (Text s))"
proof -
  from known vim_modes_nc have nc: "m \<noteq> ''nc''" by auto
  have dflt: "getitem vim_modes (PStr m) = Inr (Text s)"
    using known by (simp add: getitem_def)
  have a: "mode segment_info None = Inr (Text s)"
    using cur nc dflt by (simp add: mode_def)
  have b: "mode segment_info (Some ov) = Inr (Text t)" if "map_of ov m = Some t" for ov t
  proof -
    from that have "ov \<noteq> []" by auto
    with that cur nc show ?thesis by (simp add: mode_def getitem_def)
  qed
  have c: "mode segment_info (Some ov) = Inr (Text s)" if "map_of ov m = None" for ov
    using that cur nc dflt by (simp add: mode_def getitem_def)
  from a b c show ?thesis by blast
qed

theorem mode_override_fallback_witness:
  "mode [''mode'' \<mapsto> PStr ''n''] None = Inr (Text ''NORMAL'')
   \<and> mode [''mode'' \<mapsto> PStr ''n''] (Some [(''n'', ''NORM'')]) = Inr (Text ''NORM'')
   \<and> mode [''mode'' \<mapsto> PStr ''n''] (Some [(''i'', ''INS'')]) = Inr (Text ''NORMAL'')"
proof -
  have k: "map_of vim_modes ''n'' = Some ''NORMAL''" by (simp add: vim_modes_def)
  have c: "[''mode'' \<mapsto> PStr ''n''] ''mode'' = Some (PStr ''n'')" by simp
  have o1: "map_of [(''n'', ''NORM'')] ''n'' = Some ''NORM''" by simp
  have o2: "map_of [(''i'', ''INS'')] ''n'' = None" by simp
  from mode_override_fallback [of "''n''" "''NORMAL''" "[''mode'' \<mapsto> PStr ''n'']", OF k c] o1 o2
  show ?thesis by blast
qed

subsection \<open>\<^verbatim>\<open>file_name\<close>\<close>

text \<open>
  Claim C9. When \<^verbatim>\<open>buffer_name\<close> gives no name for the buffer of the context
  (\<^verbatim>\<open>None\<close> or the empty string) and \<^verbatim>\<open>display_no_file\<close> is left at
  \<^verbatim>\<open>False\<close>, \<^verbatim>\<open>file_name\<close> returns \<^verbatim>\<open>None\<close>, not a string. The function reads
  and writes no cache: neither cache of the module is among its arguments or its
  results, so every call with such a context gives the same answer.
\<close>

theorem file_name_absent:
  assumes "segment_info ''buffer'' = Some (PBuffer b)"
    and "buffer_name vim b = None \<or> buffer_name vim b = Some []"
  shows "file_name vim segment_info False no_file_text = Inr Absent
    \<and> file_name vim segment_info False no_file_text \<noteq> Inr (Text [])"
  using assms by (auto simp: file_name_def get_buffer_def)

theorem file_name_absent_witness:
  "[''buffer'' \<mapsto> PBuffer (example_buffer 1)] ''buffer'' = Some (PBuffer (example_buffer 1))
   \<and> buffer_name example_host (example_buffer 1) = None
   \<and> file_name example_host [''buffer'' \<mapsto> PBuffer (example_buffer 1)] False ''[No file]''
       = Inr Absent"
proof -
  have c: "[''buffer'' \<mapsto> PBuffer (example_buffer 1)] ''buffer'' = Some (PBuffer (example_buffer 1))"
    by simp
  have n: "buffer_name example_host (example_buffer 1) = None"
    by (simp add: example_host_def)
  then have n': "buffer_name example_host (example_buffer 1) = None
      \<or> buffer_name example_host (example_buffer 1) = Some []"
    by simp
  from file_name_absent [of "[''buffer'' \<mapsto> PBuffer (example_buffer 1)]" "example_buffer 1"
      example_host "''[No file]''", OF c n'] c n
  show ?thesis by simp
qed

subsection \<open>\<^verbatim>\<open>line_percent\<close>\<close>

lemma str_nat_50: "str_nat 50 = ''50''"
  by (simp add: str_nat.simps)

lemma py_round_50: "py_round three 50 = 50"
  by (simp add: py_round_def)

text \<open>
  Claim C8. With the cursor on line 50 of a buffer of 100 lines, \<^verbatim>\<open>line_percent\<close> with
  \<^verbatim>\<open>gradient=True\<close> returns a list of one part whose \<^verbatim>\<open>contents\<close> is \<^verbatim>\<open>"50"\<close> and
  whose \<^verbatim>\<open>gradient_level\<close> is 50; with \<^verbatim>\<open>gradient=False\<close> it returns the string
  \<^verbatim>\<open>"50"\<close> alone.
\<close>

theorem line_percent_50_of_100:
  assumes "segment_info ''window'' = Some (PWindow w)"
    and "fst (win_cursor w) = 50"
    and "segment_info ''buffer'' = Some (PBuffer b)"
    and "length (buf_lines b) = 100"
  shows "line_percent vim segment_info True =
      Inr (Parts [\<lparr>contents = ''50'',
                   highlight_group = [''line_percent_gradient'', ''line_percent''],
                   divider_highlight_group = None,
                   gradient_level = Some 50\<rparr>])
    \<and> line_percent vim segment_info False = Inr (Text ''50'')"
  using assms
  by (simp add: line_percent_def get_window_def get_buffer_def float_of_int_50 float_of_int_100
      percentage_50_of_100 py_round_50 py_str_def str_nat_50)

theorem line_percent_50_of_100_witness:
  "fst (win_cursor window_at_50) = 50
   \<and> length (buf_lines hundred_lines) = 100
   \<and> line_percent example_host
        [''window'' \<mapsto> PWindow window_at_50, ''buffer'' \<mapsto> PBuffer hundred_lines] True =
      Inr (Parts [\<lparr>contents = ''50'',
                   highlight_group = [''line_percent_gradient'', ''line_percent''],
                   divider_highlight_group = None,
                   gradient_level = Some 50\<rparr>])
   \<and> line_percent example_host
        [''window'' \<mapsto> PWindow window_at_50, ''buffer'' \<mapsto> PBuffer hundred_lines] False =
      Inr (Text ''50'')"
proof -
  let ?si = "[''window'' \<mapsto> PWindow window_at_50, ''buffer'' \<mapsto> PBuffer hundred_lines]"
  have w: "?si ''window'' = Some (PWindow window_at_50)" by simp
  have c: "fst (win_cursor window_at_50) = 50" by (simp add: window_at_50_def)
  have b: "?si ''buffer'' = Some (PBuffer hundred_lines)" by simp
  have l: "length (buf_lines hundred_lines) = 100" by (simp add: hundred_lines_def)
  from line_percent_50_of_100 [of ?si window_at_50 hundred_lines example_host, OF w c b l] c l
  show ?thesis by simp
qed

section \<open>The listers\<close>

subsection \<open>Deriving a context\<close>

lemma tabpage_updated_props:
  assumes a: "a < length h" and r: "tabpage_updated_segment_info h a tp = (h', c)"
  shows "c = length h" and "length h' = Suc (length h)"
    and "\<And>b. b < length h \<Longrightarrow> h' ! b = h ! b"
    and "h' ! c = (h ! a)(''tabpage'' \<mapsto> PTabpage tp, ''tabnr'' \<mapsto> PInt (tab_number tp),
          ''window'' \<mapsto> PWindow (tab_window tp), ''winnr'' \<mapsto> PInt (win_number (tab_window tp)),
          ''window_id'' \<mapsto> PInt (case map_of (win_vars (tab_window tp)) ''powerline_window_id'' of
                     None \<Rightarrow> - 1 | Some v \<Rightarrow> v),
          ''buffer'' \<mapsto> PBuffer (win_buffer (tab_window tp)),
          ''bufnr'' \<mapsto> PInt (buf_number (win_buffer (tab_window tp))))"
  using assms
  by (auto simp: tabpage_updated_segment_info_def dict_copy_def dict_update_def Let_def nth_append)

text \<open>
  Claim C6. Deriving a context for a tab page allocates a new dict: its address differs
  from the base context's, every dict that was in the store (the base context among
  them) is unchanged, the seven keys \<^verbatim>\<open>tabpage\<close>, \<^verbatim>\<open>tabnr\<close>, \<^verbatim>\<open>window\<close>,
  \<^verbatim>\<open>winnr\<close>, \<^verbatim>\<open>window_id\<close>, \<^verbatim>\<open>buffer\<close>, \<^verbatim>\<open>bufnr\<close> of the new dict hold the
  tab page's values, and every other key reads in the new dict as in the base context.
\<close>

theorem tabpage_updated_segment_info_frame:
  assumes "segment_info < length h"
  shows "case tabpage_updated_segment_info h segment_info tabpage of
      (h', derived) \<Rightarrow>
        derived \<noteq> segment_info
      \<and> (\<forall>a < length h. h' ! a = h ! a)
      \<and> (h' ! derived) ''tabpage'' = Some (PTabpage tabpage)
      \<and> (h' ! derived) ''tabnr'' = Some (PInt (tab_number tabpage))
      \<and> (h' ! derived) ''window'' = Some (PWindow (tab_window tabpage))
      \<and> (h' ! derived) ''winnr'' = Some (PInt (win_number (tab_window tabpage)))
      \<and> (h' ! derived) ''window_id'' =
            Some (PInt (case map_of (win_vars (tab_window tabpage)) ''powerline_window_id'' of
                          None \<Rightarrow> - 1 | Some v \<Rightarrow> v))
      \<and> (h' ! derived) ''buffer'' = Some (PBuffer (win_buffer (tab_window tabpage)))
      \<and> (h' ! derived) ''bufnr'' = Some (PInt (buf_number (win_buffer (tab_window tabpage))))
      \<and> (\<forall>k. k \<notin> {''tabpage'', ''tabnr'', ''window'', ''winnr'', ''window_id'', ''buffer'', ''bufnr''}
             \<longrightarrow> (h' ! derived) k = (h ! segment_info) k)"
proof -
  obtain h' c where r: "tabpage_updated_segment_info h segment_info tabpage = (h', c)"
    by (cases "tabpage_updated_segment_info h segment_info tabpage")
  note p = tabpage_updated_props [OF assms r]
  have "c \<noteq> segment_info" using p(1) assms by simp
  moreover have "\<forall>a < length h. h' ! a = h ! a" using p(3) by simp
  ultimately show ?thesis unfolding r by (simp add: p(4))
qed

theorem tabpage_updated_segment_info_frame_witness:
  "(0::nat) < length [[''mode'' \<mapsto> PStr ''n'', ''tabnr'' \<mapsto> PInt 1]]
   \<and> (case tabpage_updated_segment_info [[''mode'' \<mapsto> PStr ''n'', ''tabnr'' \<mapsto> PInt 1]] 0
           (example_tabpage 2) of
         (h', derived) \<Rightarrow>
           derived \<noteq> 0
         \<and> h' ! 0 = [''mode'' \<mapsto> PStr ''n'', ''tabnr'' \<mapsto> PInt 1]
         \<and> (h' ! derived) ''tabnr'' = Some (PInt 2)
         \<and> (h' ! derived) ''window_id'' = Some (PInt 12)
         \<and> (h' ! derived) ''bufnr'' = Some (PInt 2)
         \<and> (h' ! derived) ''mode'' = Some (PStr ''n''))"
proof -
  have valid: "(0::nat) < length [[''mode'' \<mapsto> PStr ''n'', ''tabnr'' \<mapsto> PInt 1]]" by simp
  from tabpage_updated_segment_info_frame [OF valid, of "example_tabpage 2"]
  show ?thesis
    by (simp add: example_tabpage_def example_buffer_def split: prod.splits)
qed

subsection \<open>\<^verbatim>\<open>tablister\<close>\<close>

lemma add_multiplier_fits:
  assumes "float_of_int \<bar>number - cur_nr\<bar> \<noteq> Inl OverflowError"
  shows "add_multiplier number cur_nr dct =
         Inr (dct(''priority_multiplier'' \<mapsto>
                PFloat (float_add 1 (float_mul (float_literal (1 / 1000))
                          (round_double (of_int \<bar>number - cur_nr\<bar>))))))"
  using assms by (simp add: add_multiplier_def float_of_int_def split: if_splits)

lemma add_multiplier_overflow:
  assumes "float_of_int \<bar>number - cur_nr\<bar> = Inl OverflowError"
  shows "add_multiplier number cur_nr dct = Inl OverflowError"
  using assms by (simp add: add_multiplier_def)

lemma tablister_items_heap:
  assumes "a < length h" and "tablister_items cur h a tps = Inr (h', out)"
  shows "length h \<le> length h' \<and> (\<forall>b < length h. h' ! b = h ! b)"
  using assms
proof (induction tps arbitrary: h h' out)
  case Nil
  then show ?case by simp
next
  case (Cons tp tps)
  obtain h1 c where r1: "tabpage_updated_segment_info h a tp = (h1, c)"
    by (cases "tabpage_updated_segment_info h a tp")
  from Cons.prems(2) r1 obtain h2 rest where
    r2: "tablister_items cur h1 a tps = Inr (h2, rest)" and h': "h' = h2"
    by (auto split: sum.splits)
  note p = tabpage_updated_props [OF Cons.prems(1) r1]
  have a1: "a < length h1" using p(2) Cons.prems(1) by simp
  from Cons.IH [OF a1 r2] have ih: "length h1 \<le> length h2" "\<forall>b < length h1. h2 ! b = h1 ! b"
    by simp_all
  show ?case unfolding h' using ih p(2) p(3) by auto
qed

lemma tablister_items_view:
  assumes "a < length h"
    and "\<forall>tp \<in> set tps. float_of_int \<bar>tab_number tp - tab_number cur\<bar> \<noteq> Inl OverflowError"
  shows "\<exists>h' out. tablister_items cur h a tps = Inr (h', out) \<and>
         map (\<lambda>(ctx, dct). ((h' ! ctx) ''tabnr'', dct ''mode'', dct ''priority_multiplier'')) out =
         map (\<lambda>tp. (Some (PInt (tab_number tp)),
                     Some (PStr (if tp = cur then ''tab'' else ''nc'')),
                     Some (PFloat (float_add 1 (float_mul (float_literal (1 / 1000))
                             (round_double (of_int \<bar>tab_number tp - tab_number cur\<bar>))))))) tps"
  using assms
proof (induction tps arbitrary: h)
  case Nil
  then show ?case by simp
next
  case (Cons tp tps)
  obtain h1 c where r1: "tabpage_updated_segment_info h a tp = (h1, c)"
    by (cases "tabpage_updated_segment_info h a tp")
  note p = tabpage_updated_props [OF Cons.prems(1) r1]
  have a1: "a < length h1" using p(2) Cons.prems(1) by simp
  from Cons.prems(2) have fits: "float_of_int \<bar>tab_number tp - tab_number cur\<bar> \<noteq> Inl OverflowError"
    and rest_fit: "\<forall>tp \<in> set tps. float_of_int \<bar>tab_number tp - tab_number cur\<bar> \<noteq> Inl OverflowError"
    by simp_all
  from Cons.IH [OF a1 rest_fit] obtain h2 rest where
    r2: "tablister_items cur h1 a tps = Inr (h2, rest)"
    and ih: "map (\<lambda>(ctx, dct). ((h2 ! ctx) ''tabnr'', dct ''mode'', dct ''priority_multiplier'')) rest =
         map (\<lambda>tp. (Some (PInt (tab_number tp)),
                     Some (PStr (if tp = cur then ''tab'' else ''nc'')),
                     Some (PFloat (float_add 1 (float_mul (float_literal (1 / 1000))
                             (round_double (of_int \<bar>tab_number tp - tab_number cur\<bar>))))))) tps"
    by blast
  from tablister_items_heap [OF a1 r2] have keep: "h2 ! c = h1 ! c"
    using p(1) p(2) by simp
  have hd: "(h2 ! c) ''tabnr'' = Some (PInt (tab_number tp))"
    by (simp add: keep p(4))
  have run: "tablister_items cur h a (tp # tps) =
      Inr (h2, (c, [''mode'' \<mapsto> PStr (if tp = cur then ''tab'' else ''nc''),
                    ''priority_multiplier'' \<mapsto>
                      PFloat (float_add 1 (float_mul (float_literal (1 / 1000))
                        (round_double (of_int \<bar>tab_number tp - tab_number cur\<bar>))))]) # rest)"
    by (simp add: r1 r2 add_multiplier_fits [OF fits])
  show ?case unfolding run using ih hd by simp
qed

lemma tablister_items_overflow:
  assumes "\<exists>tp \<in> set tps. float_of_int \<bar>tab_number tp - tab_number cur\<bar> = Inl OverflowError"
  shows "tablister_items cur h a tps = Inl OverflowError"
  using assms
proof (induction tps arbitrary: h)
  case Nil
  then show ?case by simp
next
  case (Cons tp tps)
  obtain h1 c where r1: "tabpage_updated_segment_info h a tp = (h1, c)"
    by (cases "tabpage_updated_segment_info h a tp")
  show ?case
  proof (cases "float_of_int \<bar>tab_number tp - tab_number cur\<bar> = Inl OverflowError")
    case True
    then show ?thesis by (simp add: r1 add_multiplier_overflow)
  next
    case False
    with Cons.prems
    have "\<exists>tp \<in> set tps. float_of_int \<bar>tab_number tp - tab_number cur\<bar> = Inl OverflowError"
      by auto
    from Cons.IH [OF this] have "tablister_items cur h1 a tps = Inl OverflowError" .
    with False show ?thesis by (simp add: r1 add_multiplier_fits)
  qed
qed

text \<open>
  Claim C4. When the distance of every tab page to the current one converts to a float
  (Python raises \<^verbatim>\<open>OverflowError\<close> otherwise, see \<open>tablister_items_overflow\<close>),
  \<^verbatim>\<open>tablister\<close> returns one (context, override) pair per tab page of
  \<^verbatim>\<open>list_tabpages()\<close>, in that order: the context of a pair carries the tab page's
  number as \<^verbatim>\<open>tabnr\<close>, the override's \<^verbatim>\<open>mode\<close> is \<^verbatim>\<open>tab\<close> for the current tab
  page and \<^verbatim>\<open>nc\<close> for any other, and its \<^verbatim>\<open>priority_multiplier\<close> is
  \<^verbatim>\<open>1 + 0.001 * |tab number - current tab number|\<close> computed in doubles: the distance
  as a float, times the double \<^verbatim>\<open>0.001\<close>, rounded, plus one, rounded. For the tab pages
  1, 2, 3 with 2 current (the witness below) the multipliers are the doubles \<^verbatim>\<open>1.001\<close>,
  \<^verbatim>\<open>1.0\<close>, \<^verbatim>\<open>1.001\<close> and the modes \<^verbatim>\<open>nc\<close>, \<^verbatim>\<open>tab\<close>, \<^verbatim>\<open>nc\<close>; for the
  tab pages 1 and 123 with 1 current the second multiplier is \<^verbatim>\<open>1.1219999999999999\<close>.
\<close>

theorem tablister_order_weights:
  assumes "segment_info < length h"
    and "\<forall>tabpage \<in> set (list_tabpages vim).
           float_of_int \<bar>tab_number tabpage - tab_number (current_tabpage vim)\<bar> \<noteq> Inl OverflowError"
  shows "\<exists>h' out. tablister vim h segment_info = Inr (h', out) \<and>
        map (\<lambda>(ctx, dct). ((h' ! ctx) ''tabnr'', dct ''mode'', dct ''priority_multiplier'')) out =
        map (\<lambda>tabpage.
               (Some (PInt (tab_number tabpage)),
                Some (PStr (if tabpage = current_tabpage vim then ''tab'' else ''nc'')),
                Some (PFloat (float_add 1 (float_mul (float_literal (1 / 1000))
                   (round_double
                      (of_int \<bar>tab_number tabpage - tab_number (current_tabpage vim)\<bar>)))))))
          (list_tabpages vim)"
  unfolding tablister_def using assms by (rule tablister_items_view)

theorem tablister_order_weights_witness:
  "(0::nat) < length [[''mode'' \<mapsto> PStr ''n'']]
   \<and> float_of_int \<bar>1 - 2\<bar> = Inr 1 \<and> float_of_int \<bar>2 - 2\<bar> = Inr 0
   \<and> float_of_int \<bar>3 - 2\<bar> = Inr 1
   \<and> float_literal (1001 / 1000) = 2254051613498933 / 2251799813685248
   \<and> (\<exists>h' out.
        tablister
          (example_host\<lparr>current_tabpage := example_tabpage 2,
             list_tabpages := [example_tabpage 1, example_tabpage 2, example_tabpage 3]\<rparr>)
          [[''mode'' \<mapsto> PStr ''n'']] 0 = Inr (h', out)
      \<and> map (\<lambda>(ctx, dct). ((h' ! ctx) ''tabnr'', dct ''mode'', dct ''priority_multiplier'')) out =
        [(Some (PInt 1), Some (PStr ''nc''), Some (PFloat (2254051613498933 / 2251799813685248))),
         (Some (PInt 2), Some (PStr ''tab''), Some (PFloat 1)),
         (Some (PInt 3), Some (PStr ''nc''), Some (PFloat (2254051613498933 / 2251799813685248)))])
   \<and> float_of_int \<bar>123 - 1\<bar> = Inr 122
   \<and> (\<exists>h' out.
        tablister
          (example_host\<lparr>current_tabpage := example_tabpage 1,
             list_tabpages := [example_tabpage 1, example_tabpage 123]\<rparr>)
          [[''mode'' \<mapsto> PStr ''n'']] 0 = Inr (h', out)
      \<and> map (\<lambda>(ctx, dct). ((h' ! ctx) ''tabnr'', dct ''mode'', dct ''priority_multiplier'')) out =
        [(Some (PInt 1), Some (PStr ''tab''), Some (PFloat 1)),
         (Some (PInt 123), Some (PStr ''nc''), Some (PFloat (78953730967339 / 70368744177664)))])"
proof -
  let ?vim = "example_host\<lparr>current_tabpage := example_tabpage 2,
             list_tabpages := [example_tabpage 1, example_tabpage 2, example_tabpage 3]\<rparr>"
  have valid: "(0::nat) < length [[''mode'' \<mapsto> PStr ''n'']]" by simp
  have f1: "float_of_int \<bar>1 - 2\<bar> = Inr 1" and f0: "float_of_int \<bar>2 - 2\<bar> = Inr 0"
    and f3: "float_of_int \<bar>3 - 2\<bar> = Inr 1"
    by (simp_all add: float_of_int_0 float_of_int_1)
  have fits: "\<forall>tabpage \<in> set (list_tabpages ?vim).
      float_of_int \<bar>tab_number tabpage - tab_number (current_tabpage ?vim)\<bar> \<noteq> Inl OverflowError"
    by (simp add: example_tabpage_def float_of_int_0 float_of_int_1)
  from tablister_order_weights [OF valid fits]
  obtain h' out where r: "tablister ?vim [[''mode'' \<mapsto> PStr ''n'']] 0 = Inr (h', out)"
    and v: "map (\<lambda>(ctx, dct). ((h' ! ctx) ''tabnr'', dct ''mode'', dct ''priority_multiplier'')) out =
        map (\<lambda>tabpage.
               (Some (PInt (tab_number tabpage)),
                Some (PStr (if tabpage = current_tabpage ?vim then ''tab'' else ''nc'')),
                Some (PFloat (float_add 1 (float_mul (float_literal (1 / 1000))
                   (round_double
                      (of_int \<bar>tab_number tabpage - tab_number (current_tabpage ?vim)\<bar>)))))))
          (list_tabpages ?vim)"
    by blast
  have "map (\<lambda>tabpage.
               (Some (PInt (tab_number tabpage)),
                Some (PStr (if tabpage = current_tabpage ?vim then ''tab'' else ''nc'')),
                Some (PFloat (float_add 1 (float_mul (float_literal (1 / 1000))
                   (round_double
                      (of_int \<bar>tab_number tabpage - tab_number (current_tabpage ?vim)\<bar>)))))))
          (list_tabpages ?vim) =
        [(Some (PInt 1), Some (PStr ''nc''), Some (PFloat (2254051613498933 / 2251799813685248))),
         (Some (PInt 2), Some (PStr ''tab''), Some (PFloat 1)),
         (Some (PInt 3), Some (PStr ''nc''), Some (PFloat (2254051613498933 / 2251799813685248)))]"
    by (simp add: example_tabpage_def example_buffer_def round_double_0 round_double_1
        multiplier_0 multiplier_1)
  with v have v': "map (\<lambda>(ctx, dct). ((h' ! ctx) ''tabnr'', dct ''mode'', dct ''priority_multiplier'')) out =
        [(Some (PInt 1), Some (PStr ''nc''), Some (PFloat (2254051613498933 / 2251799813685248))),
         (Some (PInt 2), Some (PStr ''tab''), Some (PFloat 1)),
         (Some (PInt 3), Some (PStr ''nc''), Some (PFloat (2254051613498933 / 2251799813685248)))]"
    by (simp only:)
  from r v' have ex: "\<exists>h' out. tablister ?vim [[''mode'' \<mapsto> PStr ''n'']] 0 = Inr (h', out)
      \<and> map (\<lambda>(ctx, dct). ((h' ! ctx) ''tabnr'', dct ''mode'', dct ''priority_multiplier'')) out =
        [(Some (PInt 1), Some (PStr ''nc''), Some (PFloat (2254051613498933 / 2251799813685248))),
         (Some (PInt 2), Some (PStr ''tab''), Some (PFloat 1)),
         (Some (PInt 3), Some (PStr ''nc''), Some (PFloat (2254051613498933 / 2251799813685248)))]"
    by (intro exI [of _ h'] exI [of _ out] conjI)
  let ?far = "example_host\<lparr>current_tabpage := example_tabpage 1,
             list_tabpages := [example_tabpage 1, example_tabpage 123]\<rparr>"
  have f122: "float_of_int \<bar>123 - 1\<bar> = Inr 122"
    by (simp add: float_of_int_122)
  have fits_far: "\<forall>tabpage \<in> set (list_tabpages ?far).
      float_of_int \<bar>tab_number tabpage - tab_number (current_tabpage ?far)\<bar> \<noteq> Inl OverflowError"
    by (simp add: example_tabpage_def float_of_int_0 float_of_int_122)
  from tablister_order_weights [OF valid fits_far]
  obtain g' far_out where rf: "tablister ?far [[''mode'' \<mapsto> PStr ''n'']] 0 = Inr (g', far_out)"
    and vf: "map (\<lambda>(ctx, dct). ((g' ! ctx) ''tabnr'', dct ''mode'', dct ''priority_multiplier''))
          far_out =
        map (\<lambda>tabpage.
               (Some (PInt (tab_number tabpage)),
                Some (PStr (if tabpage = current_tabpage ?far then ''tab'' else ''nc'')),
                Some (PFloat (float_add 1 (float_mul (float_literal (1 / 1000))
                   (round_double
                      (of_int \<bar>tab_number tabpage - tab_number (current_tabpage ?far)\<bar>)))))))
          (list_tabpages ?far)"
    by blast
  have "map (\<lambda>tabpage.
               (Some (PInt (tab_number tabpage)),
                Some (PStr (if tabpage = current_tabpage ?far then ''tab'' else ''nc'')),
                Some (PFloat (float_add 1 (float_mul (float_literal (1 / 1000))
                   (round_double
                      (of_int \<bar>tab_number tabpage - tab_number (current_tabpage ?far)\<bar>)))))))
          (list_tabpages ?far) =
        [(Some (PInt 1), Some (PStr ''tab''), Some (PFloat 1)),
         (Some (PInt 123), Some (PStr ''nc''), Some (PFloat (78953730967339 / 70368744177664)))]"
    by (simp add: example_tabpage_def example_buffer_def round_double_0 round_double_122
        multiplier_0 multiplier_122)
  with vf have vf': "map (\<lambda>(ctx, dct). ((g' ! ctx) ''tabnr'', dct ''mode'', dct ''priority_multiplier''))
          far_out =
        [(Some (PInt 1), Some (PStr ''tab''), Some (PFloat 1)),
         (Some (PInt 123), Some (PStr ''nc''), Some (PFloat (78953730967339 / 70368744177664)))]"
    by (simp only:)
  from rf vf' have ex_far: "\<exists>h' out. tablister ?far [[''mode'' \<mapsto> PStr ''n'']] 0 = Inr (h', out)
      \<and> map (\<lambda>(ctx, dct). ((h' ! ctx) ''tabnr'', dct ''mode'', dct ''priority_multiplier'')) out =
        [(Some (PInt 1), Some (PStr ''tab''), Some (PFloat 1)),
         (Some (PInt 123), Some (PStr ''nc''), Some (PFloat (78953730967339 / 70368744177664)))]"
    by (intro exI [of _ g'] exI [of _ far_out] conjI)
  from valid f1 f0 f3 float_literal_1001 ex f122 ex_far show ?thesis by (intro conjI)
qed

subsection \<open>\<^verbatim>\<open>bufferlister\<close> and \<^verbatim>\<open>tabbuflister\<close>\<close>

lemma bufferlister_items_modes:
  assumes "\<forall>b \<in> set bufs. float_of_int \<bar>buf_number b - buf_number cur\<bar> \<noteq> Inl OverflowError"
  shows "\<exists>h' out. bufferlister_items cur h a bufs = Inr (h', out) \<and>
         map (\<lambda>(ctx, dct). dct ''mode'') out =
         map (\<lambda>buffer. Some (PStr (if buffer = cur then ''tab'' else ''nc''))) bufs"
  using assms
proof (induction bufs arbitrary: h)
  case Nil
  then show ?case by simp
next
  case (Cons buffer bufs)
  obtain h1 c where r1: "buffer_updated_segment_info h a buffer = (h1, c)"
    by (cases "buffer_updated_segment_info h a buffer")
  from Cons.prems have fits: "float_of_int \<bar>buf_number buffer - buf_number cur\<bar> \<noteq> Inl OverflowError"
    and rest_fit: "\<forall>b \<in> set bufs. float_of_int \<bar>buf_number b - buf_number cur\<bar> \<noteq> Inl OverflowError"
    by simp_all
  from Cons.IH [OF rest_fit, of h1] obtain h2 rest where
    r2: "bufferlister_items cur h1 a bufs = Inr (h2, rest)"
    and ih: "map (\<lambda>(ctx, dct). dct ''mode'') rest =
      map (\<lambda>buffer. Some (PStr (if buffer = cur then ''tab'' else ''nc''))) bufs"
    by blast
  show ?case
    by (simp add: r1 r2 ih add_multiplier_fits [OF fits])
qed

lemma tabbuflister_delegates:
  "(length (list_tabpages vim) = 1 \<longrightarrow>
      tabbuflister vim h segment_info = bufferlister vim h segment_info)
   \<and> (length (list_tabpages vim) \<noteq> 1 \<longrightarrow>
      tabbuflister vim h segment_info = tablister vim h segment_info)"
  by (simp add: tabbuflister_def)

text \<open>
  Claim C2. With one tab page open and the buffers 1, 2, 3 of which buffer 1 is current,
  \<^verbatim>\<open>tabbuflister\<close> returns what \<^verbatim>\<open>bufferlister\<close> returns, three pairs in the
  order of \<^verbatim>\<open>vim.buffers\<close>; their modes are \<^verbatim>\<open>tab\<close>, \<^verbatim>\<open>nc\<close>, \<^verbatim>\<open>nc\<close>: the
  current buffer gets the mode \<^verbatim>\<open>tab\<close>, not the \<^verbatim>\<open>buf\<close> that the docstring of
  \<^verbatim>\<open>bufferlister\<close> and the claim name.
\<close>

theorem tabbuflister_single_tab_modes:
  "length (list_tabpages three_buffers_host) = 1
   \<and> map buf_number (buffers three_buffers_host) = [1, 2, 3]
   \<and> buf_number (current_buffer three_buffers_host) = 1
   \<and> tabbuflister three_buffers_host [[''mode'' \<mapsto> PStr ''n'']] 0 =
       bufferlister three_buffers_host [[''mode'' \<mapsto> PStr ''n'']] 0
   \<and> (\<exists>h' out.
        tabbuflister three_buffers_host [[''mode'' \<mapsto> PStr ''n'']] 0 = Inr (h', out)
      \<and> map (\<lambda>(ctx, dct). dct ''mode'') out =
        [Some (PStr ''tab''), Some (PStr ''nc''), Some (PStr ''nc'')])"
proof -
  have one: "length (list_tabpages three_buffers_host) = 1"
    by (simp add: three_buffers_host_def example_host_def)
  have bufs: "map buf_number (buffers three_buffers_host) = [1, 2, 3]"
    by (simp add: three_buffers_host_def example_host_def example_buffer_def)
  have cur: "buf_number (current_buffer three_buffers_host) = 1"
    by (simp add: three_buffers_host_def example_host_def example_buffer_def)
  have modes: "map (\<lambda>buffer. Some (PStr (if buffer = current_buffer three_buffers_host
        then ''tab'' else ''nc''))) (buffers three_buffers_host) =
      [Some (PStr ''tab''), Some (PStr ''nc''), Some (PStr ''nc'')]"
    by (simp add: three_buffers_host_def example_host_def example_buffer_def)
  have fits: "\<forall>b \<in> set (buffers three_buffers_host).
      float_of_int \<bar>buf_number b - buf_number (current_buffer three_buffers_host)\<bar>
        \<noteq> Inl OverflowError"
    by (simp add: three_buffers_host_def example_host_def example_buffer_def
        float_of_int_0 float_of_int_1 float_of_int_2)
  have same: "tabbuflister three_buffers_host [[''mode'' \<mapsto> PStr ''n'']] 0 =
       bufferlister three_buffers_host [[''mode'' \<mapsto> PStr ''n'']] 0"
    using one by (simp add: tabbuflister_def)
  from bufferlister_items_modes [OF fits, of "[[''mode'' \<mapsto> PStr ''n'']]" 0]
  obtain h' out where
    r: "bufferlister three_buffers_host [[''mode'' \<mapsto> PStr ''n'']] 0 = Inr (h', out)"
    and m: "map (\<lambda>(ctx, dct). dct ''mode'') out =
      map (\<lambda>buffer. Some (PStr (if buffer = current_buffer three_buffers_host
        then ''tab'' else ''nc''))) (buffers three_buffers_host)"
    unfolding bufferlister_def by blast
  from m modes have m': "map (\<lambda>(ctx, dct). dct ''mode'') out =
      [Some (PStr ''tab''), Some (PStr ''nc''), Some (PStr ''nc'')]"
    by (simp only:)
  from r same have r': "tabbuflister three_buffers_host [[''mode'' \<mapsto> PStr ''n'']] 0 = Inr (h', out)"
    by simp
  from r' m' have ex: "\<exists>h' out.
        tabbuflister three_buffers_host [[''mode'' \<mapsto> PStr ''n'']] 0 = Inr (h', out)
      \<and> map (\<lambda>(ctx, dct). dct ''mode'') out =
        [Some (PStr ''tab''), Some (PStr ''nc''), Some (PStr ''nc'')]"
    by (intro exI [of _ h'] exI [of _ out] conjI)
  from one bufs cur same ex show ?thesis by (intro conjI)
qed

section \<open>The caches\<close>

subsection \<open>\<^verbatim>\<open>window_cached\<close>\<close>

lemma window_cached_nc:
  assumes "segment_info ''window_id'' = Some w" and "segment_info ''mode'' = Some (PStr ''nc'')"
  shows "window_cached func cache segment_info kwargs =
         (Inr (case cache w of None \<Rightarrow> Absent | Some r \<Rightarrow> r), cache)"
  using assms by (simp add: window_cached_def)

lemma window_cached_keeps:
  assumes "\<not> focused_call w (func, segment_info, kwargs)"
  shows "snd (window_cached func cache segment_info kwargs) w = cache w"
  using assms
  by (auto simp: window_cached_def focused_call_def split: option.splits sum.splits)

lemma window_cached_run_keeps:
  assumes "\<forall>call \<in> set calls. \<not> focused_call w call"
  shows "window_cached_run cache calls w = cache w"
  using assms
proof (induction calls arbitrary: cache)
  case Nil
  then show ?case by simp
next
  case (Cons call calls)
  obtain func si kw where call: "call = (func, si, kw)" by (cases call)
  from Cons.prems call have nf: "\<not> focused_call w (func, si, kw)" by simp
  from Cons.prems have rest: "\<forall>c \<in> set calls. \<not> focused_call w c" by simp
  have "window_cached_run cache (call # calls) w =
        window_cached_run (snd (window_cached func cache si kw)) calls w"
    by (simp add: call)
  also have "\<dots> = snd (window_cached func cache si kw) w"
    by (rule Cons.IH [OF rest])
  also have "\<dots> = cache w"
    by (rule window_cached_keeps [OF nf])
  finally show ?case .
qed

text \<open>
  Claim C5, amended. A focused call for window identity \<open>w\<close> (its mode is not \<^verbatim>\<open>nc\<close>)
  that returns \<open>A\<close> stores \<open>A\<close>. After any calls in between that are not focused calls
  for \<open>w\<close>, a call for \<open>w\<close> with mode \<^verbatim>\<open>nc\<close> returns \<open>A\<close> and leaves the cache as it
  is, whatever the wrapped function is: it is not called. A call with mode \<^verbatim>\<open>nc\<close> for
  a window with no stored value returns \<^verbatim>\<open>None\<close>, again without calling the function.
  (As stated, for any later call, the claim fails: a focused call for \<open>w\<close> in between
  replaces the stored value; see the counterexample below.)
\<close>

theorem window_cached_frozen:
  assumes id1: "segment_info ''window_id'' = Some w"
    and mode1: "segment_info ''mode'' = Some m" and focused: "m \<noteq> PStr ''nc''"
    and ret: "func kwargs = Inr A"
    and between: "\<forall>call \<in> set calls. \<not> focused_call w call"
    and id2: "nc_segment_info ''window_id'' = Some w"
    and mode2: "nc_segment_info ''mode'' = Some (PStr ''nc'')"
  shows "fst (window_cached func cache segment_info kwargs) = Inr A
    \<and> (\<forall>func2 kwargs2.
          window_cached func2
            (window_cached_run (snd (window_cached func cache segment_info kwargs)) calls)
            nc_segment_info kwargs2 =
          (Inr A, window_cached_run (snd (window_cached func cache segment_info kwargs)) calls))
    \<and> (\<forall>func2 kwargs2 cache0.
          cache0 w = None \<longrightarrow>
            window_cached func2 cache0 nc_segment_info kwargs2 = (Inr Absent, cache0))"
proof -
  let ?c1 = "snd (window_cached func cache segment_info kwargs)"
  from id1 mode1 focused ret
  have first: "window_cached func cache segment_info kwargs = (Inr A, cache(w \<mapsto> A))"
    by (simp add: window_cached_def)
  then have stored: "?c1 w = Some A" by simp
  have frozen: "window_cached_run ?c1 calls w = Some A"
    using window_cached_run_keeps [OF between, of ?c1] stored by simp
  have a: "fst (window_cached func cache segment_info kwargs) = Inr A"
    using first by simp
  have b: "window_cached func2 (window_cached_run ?c1 calls) nc_segment_info kwargs2 =
        (Inr A, window_cached_run ?c1 calls)" for func2 kwargs2
    by (simp add: window_cached_nc [where segment_info = nc_segment_info and w = w, OF id2 mode2]
        frozen)
  have c: "window_cached func2 cache0 nc_segment_info kwargs2 = (Inr Absent, cache0)"
    if "cache0 w = None" for func2 kwargs2 cache0
    by (simp add: window_cached_nc [where segment_info = nc_segment_info and w = w, OF id2 mode2]
        that)
  show ?thesis
  proof (intro conjI allI impI)
    show "fst (window_cached func cache segment_info kwargs) = Inr A" by (rule a)
  next
    fix func2 :: "'c \<Rightarrow> py_error + fragment" and kwargs2
    show "window_cached func2 (window_cached_run ?c1 calls) nc_segment_info kwargs2 =
        (Inr A, window_cached_run ?c1 calls)" by (rule b)
  next
    fix func2 :: "'d \<Rightarrow> py_error + fragment" and kwargs2 and cache0 :: wcache
    assume "cache0 w = None"
    then show "window_cached func2 cache0 nc_segment_info kwargs2 = (Inr Absent, cache0)"
      by (rule c)
  qed
qed

theorem window_cached_frozen_witness:
  "focused_info 1 ''window_id'' = Some (PInt 1)
   \<and> focused_info 1 ''mode'' = Some (PStr ''n'')
   \<and> \<not> focused_call (PInt 1) (returning ''B'', focused_info 2, ())
   \<and> \<not> focused_call (PInt 1) (returning ''C'', nc_info 1, ())
   \<and> fst (window_cached (returning ''A'') Map.empty (focused_info 1) ()) = Inr (Text ''A'')
   \<and> fst (window_cached (\<lambda>kwargs. Inl TypeError)
        (window_cached_run (snd (window_cached (returning ''A'') Map.empty (focused_info 1) ()))
           [(returning ''B'', focused_info 2, ()), (returning ''C'', nc_info 1, ())])
        (nc_info 1) ()) = Inr (Text ''A'')
   \<and> window_cached (returning ''D'') Map.empty (nc_info 1) () = (Inr Absent, Map.empty)"
proof -
  let ?calls = "[(returning ''B'', focused_info 2, ()), (returning ''C'', nc_info 1, ())]"
  have id1: "focused_info 1 ''window_id'' = Some (PInt 1)"
    and mode1: "focused_info 1 ''mode'' = Some (PStr ''n'')"
    and id2: "nc_info 1 ''window_id'' = Some (PInt 1)"
    and mode2: "nc_info 1 ''mode'' = Some (PStr ''nc'')"
    by (simp_all add: focused_info_def nc_info_def)
  have focused: "PStr ''n'' \<noteq> PStr ''nc''" by simp
  have ret: "returning ''A'' () = Inr (Text ''A'')" by (simp add: returning_def)
  have n1: "\<not> focused_call (PInt 1) (returning ''B'', focused_info 2, ())"
    and n2: "\<not> focused_call (PInt 1) (returning ''C'', nc_info 1, ())"
    by (simp_all add: focused_call_def focused_info_def nc_info_def)
  then have between: "\<forall>call \<in> set ?calls. \<not> focused_call (PInt 1) call" by simp
  have none: "(Map.empty :: wcache) (PInt 1) = None" by simp
  note frozen = window_cached_frozen [where segment_info = "focused_info 1"
      and nc_segment_info = "nc_info 1" and cache = Map.empty and func = "returning ''A''"
      and kwargs = "()" and A = "Text ''A''" and w = "PInt 1" and m = "PStr ''n''"
      and calls = ?calls,
      OF id1 mode1 focused ret between id2 mode2]
  from frozen have a: "fst (window_cached (returning ''A'') Map.empty (focused_info 1) ())
      = Inr (Text ''A'')"
    by (rule conjunct1)
  note later = frozen [THEN conjunct2, THEN conjunct1, rule_format]
  have b: "fst (window_cached (\<lambda>kwargs. Inl TypeError)
        (window_cached_run (snd (window_cached (returning ''A'') Map.empty (focused_info 1) ()))
           ?calls) (nc_info 1) ()) = Inr (Text ''A'')"
    by (simp only: later fst_conv)
  note never = frozen [THEN conjunct2, THEN conjunct2, rule_format]
  have c: "window_cached (returning ''D'') Map.empty (nc_info 1) () = (Inr Absent, Map.empty)"
    by (rule never [OF none])
  from id1 mode1 n1 n2 a b c show ?thesis by (intro conjI)
qed

theorem window_cached_any_later_call_counterexample:
  "fst (window_cached (returning ''A'') Map.empty (focused_info 1) ()) = Inr (Text ''A'')
   \<and> fst (window_cached (returning ''C'')
        (window_cached_run (snd (window_cached (returning ''A'') Map.empty (focused_info 1) ()))
           [(returning ''B'', focused_info 1, ())])
        (nc_info 1) ()) = Inr (Text ''B'')"
  by (simp add: window_cached_def focused_info_def nc_info_def returning_def)

subsection \<open>The cache of \<^verbatim>\<open>trailing_whitespace\<close>\<close>

lemma ticks_Cons: "ticks k ((vim, si) # calls) = changedtick vim k # ticks k calls"
  by (simp add: ticks_def)

lemma ticks_Nil: "ticks k [] = []"
  by (simp add: ticks_def)

lemma tw_hit:
  assumes "segment_info ''bufnr'' = Some k"
    and "fst (entry_or_default st k) = changedtick vim k"
  shows "fst (trailing_whitespace vim st segment_info) = Inr (snd (entry_or_default st k))"
    and "scans (snd (trailing_whitespace vim st segment_info)) = scans st"
    and "entry_or_default (snd (trailing_whitespace vim st segment_info)) k = entry_or_default st k"
  using assms
  by (auto simp: trailing_whitespace_def entry_or_default_def lookup_entry_def
      defaultdict_getitem_def register_buffer_cache_def Let_def split: option.splits)

lemma tw_miss:
  assumes "segment_info ''bufnr'' = Some k"
    and "fst (entry_or_default st k) \<noteq> changedtick vim k"
    and "get_buffer segment_info = Inr b"
    and "scan_buffer vim k b = Inr r"
  shows "fst (trailing_whitespace vim st segment_info) = Inr r"
    and "scans (snd (trailing_whitespace vim st segment_info)) = scans st + 1"
    and "lookup_entry (snd (trailing_whitespace vim st segment_info)) k = Some (changedtick vim k, r)"
  using assms
  by (auto simp: trailing_whitespace_def entry_or_default_def lookup_entry_def
      defaultdict_getitem_def register_buffer_cache_def Let_def split: option.splits)

lemma tw_run_scans:
  assumes "\<forall>call \<in> set calls. call_ok k call"
    and "sorted (t0 # ticks k calls)"
    and "fst (entry_or_default st k) = t0"
  shows "scans (snd (trailing_whitespace_run st calls)) =
         scans st + card (set (ticks k calls) - {t0})"
  using assms
proof (induction calls arbitrary: st t0)
  case Nil
  then show ?case by (simp add: ticks_Nil)
next
  case (Cons call calls)
  obtain vim si where call: "call = (vim, si)" by (cases call)
  let ?t = "changedtick vim k"
  let ?ts = "ticks k calls"
  let ?st1 = "snd (trailing_whitespace vim st si)"
  from Cons.prems(1) call obtain b r where ok: "si ''bufnr'' = Some k"
    "get_buffer si = Inr b" "scan_buffer vim k b = Inr r"
    by (auto simp: call_ok_def split: sum.splits)
  from Cons.prems(1) have oks: "\<forall>c \<in> set calls. call_ok k c" by simp
  from Cons.prems(2) call have le: "t0 \<le> ?t" and srt: "sorted (?t # ?ts)"
    and all_le: "\<forall>t \<in> set ?ts. ?t \<le> t"
    by (auto simp: ticks_Cons)
  have tc: "ticks k (call # calls) = ?t # ?ts" by (simp add: call ticks_Cons)
  have run: "snd (trailing_whitespace_run st (call # calls)) = snd (trailing_whitespace_run ?st1 calls)"
    by (simp add: call split: prod.splits)
  show ?case
  proof (cases "?t = t0")
    case True
    with Cons.prems(3) have eq: "fst (entry_or_default st k) = ?t" by simp
    from tw_hit [where segment_info = si and vim = vim and st = st and k = k, OF ok(1) eq] Cons.prems(3)
    have s: "scans ?st1 = scans st" and e: "fst (entry_or_default ?st1 k) = t0"
      by simp_all
    from True srt have srt0: "sorted (t0 # ?ts)" by simp
    from Cons.IH [OF oks srt0 e] s True show ?thesis
      unfolding run tc by simp
  next
    case False
    with Cons.prems(3) have ne: "fst (entry_or_default st k) \<noteq> ?t" by simp
    from tw_miss [where segment_info = si and vim = vim and st = st and k = k, OF ok(1) ne ok(2) ok(3)]
    have s: "scans ?st1 = scans st + 1" and e: "fst (entry_or_default ?st1 k) = ?t"
      by (simp_all add: entry_or_default_def)
    from False le have lt: "t0 < ?t" by simp
    with all_le have notin: "t0 \<notin> set ?ts" by auto
    have split: "set (?t # ?ts) - {t0} = insert ?t (set ?ts - {?t})"
      using notin False by auto
    have "card (insert ?t (set ?ts - {?t})) = Suc (card (set ?ts - {?t}))"
      by (rule card_insert_disjoint) simp_all
    with split have "card (set (?t # ?ts) - {t0}) = Suc (card (set ?ts - {?t}))"
      by (simp only:)
    with Cons.IH [OF oks srt e] s show ?thesis
      unfolding run tc by simp
  qed
qed



lemma tw_first_scan:
  assumes "\<forall>call \<in> set calls. call_ok k call"
    and "sorted (ticks k calls)"
    and "0 \<notin> set (ticks k calls)"
    and "lookup_entry st k = None"
  shows "scans (snd (trailing_whitespace_run st calls)) = scans st + card (set (ticks k calls))"
proof (cases calls)
  case Nil
  then show ?thesis by (simp add: ticks_Nil)
next
  case (Cons call rest)
  obtain vim si where call: "call = (vim, si)" by (cases call)
  let ?t = "changedtick vim k"
  let ?st1 = "snd (trailing_whitespace vim st si)"
  have tc: "ticks k calls = ?t # ticks k rest" by (simp add: Cons call ticks_Cons)
  from assms(1) Cons call obtain b r where ok: "si ''bufnr'' = Some k"
    "get_buffer si = Inr b" "scan_buffer vim k b = Inr r"
    by (auto simp: call_ok_def split: sum.splits)
  from assms(1) Cons have oks: "\<forall>c \<in> set rest. call_ok k c" by simp
  from assms(3) tc have "?t \<noteq> 0" by auto
  with assms(4) have ne: "fst (entry_or_default st k) \<noteq> ?t"
    by (simp add: entry_or_default_def)
  from tw_miss [where segment_info = si and vim = vim and st = st and k = k, OF ok(1) ne ok(2) ok(3)]
  have s: "scans ?st1 = scans st + 1" and e: "fst (entry_or_default ?st1 k) = ?t"
    by (simp_all add: entry_or_default_def)
  from assms(2) tc have srt: "sorted (?t # ticks k rest)" by simp
  have run: "snd (trailing_whitespace_run st calls) = snd (trailing_whitespace_run ?st1 rest)"
    by (simp add: Cons call split: prod.splits)
  have "card (insert ?t (set (ticks k rest) - {?t})) = Suc (card (set (ticks k rest) - {?t}))"
    by (rule card_insert_disjoint) simp_all
  then have "card (set (ticks k calls)) = Suc (card (set (ticks k rest) - {?t}))"
    by (simp add: tc)
  with tw_run_scans [OF oks srt e] s show ?thesis
    unfolding run by simp
qed

lemmas scan_eval =
  scan_buffer_def has_trailing_ws_def sws_def bws_def py_str_def str_nat.simps

text \<open>
  Claim C1, amended. For calls on one buffer key whose scans raise nothing: starting with
  no entry for the buffer, when the counters read are never zero and never decrease, the
  scanning branch is entered once per distinct counter value. In any state, when the
  entry for the buffer (the stored one, or \<^verbatim>\<open>(0, None)\<close> when none is stored) has the
  current counter, its value is returned and nothing is scanned; when its counter
  differs, the buffer is scanned and the result is returned and stored with the current
  counter. (As stated the claim fails twice: a first call whose counter is 0 returns
  \<^verbatim>\<open>None\<close> without a scan, and a counter that comes back to an earlier value is
  scanned again; see the counterexample below.)
\<close>

theorem trailing_whitespace_cache_contract:
  assumes "\<forall>call \<in> set calls. call_ok k call"
    and "sorted (ticks k calls)"
    and "0 \<notin> set (ticks k calls)"
    and "lookup_entry st k = None"
  shows "scans (snd (trailing_whitespace_run st calls)) = scans st + card (set (ticks k calls))
    \<and> (\<forall>vim segment_info s.
          segment_info ''bufnr'' = Some k \<and> fst (entry_or_default s k) = changedtick vim k \<longrightarrow>
            fst (trailing_whitespace vim s segment_info) = Inr (snd (entry_or_default s k))
          \<and> scans (snd (trailing_whitespace vim s segment_info)) = scans s)
    \<and> (\<forall>vim segment_info s b r.
          segment_info ''bufnr'' = Some k \<and> fst (entry_or_default s k) \<noteq> changedtick vim k
          \<and> get_buffer segment_info = Inr b \<and> scan_buffer vim k b = Inr r \<longrightarrow>
            fst (trailing_whitespace vim s segment_info) = Inr r
          \<and> scans (snd (trailing_whitespace vim s segment_info)) = scans s + 1
          \<and> lookup_entry (snd (trailing_whitespace vim s segment_info)) k =
              Some (changedtick vim k, r))"
proof (intro conjI allI impI)
  show "scans (snd (trailing_whitespace_run st calls)) = scans st + card (set (ticks k calls))"
    using assms by (rule tw_first_scan)
next
  fix vim :: vim_host and segment_info :: dict and s :: tw_state
  assume h: "segment_info ''bufnr'' = Some k \<and> fst (entry_or_default s k) = changedtick vim k"
  then have h1: "segment_info ''bufnr'' = Some k"
    and h2: "fst (entry_or_default s k) = changedtick vim k" by simp_all
  note hit = tw_hit [where segment_info = segment_info and vim = vim and st = s and k = k, OF h1 h2]
  show "fst (trailing_whitespace vim s segment_info) = Inr (snd (entry_or_default s k))"
    by (rule hit(1))
  show "scans (snd (trailing_whitespace vim s segment_info)) = scans s"
    by (rule hit(2))
next
  fix vim :: vim_host and segment_info :: dict and s :: tw_state and b r
  assume h: "segment_info ''bufnr'' = Some k \<and> fst (entry_or_default s k) \<noteq> changedtick vim k
          \<and> get_buffer segment_info = Inr b \<and> scan_buffer vim k b = Inr r"
  then have h1: "segment_info ''bufnr'' = Some k"
    and h2: "fst (entry_or_default s k) \<noteq> changedtick vim k"
    and h3: "get_buffer segment_info = Inr b" and h4: "scan_buffer vim k b = Inr r"
    by simp_all
  note miss = tw_miss [where segment_info = segment_info and vim = vim and st = s and k = k,
      OF h1 h2 h3 h4]
  show "fst (trailing_whitespace vim s segment_info) = Inr r" by (rule miss(1))
  show "scans (snd (trailing_whitespace vim s segment_info)) = scans s + 1" by (rule miss(2))
  show "lookup_entry (snd (trailing_whitespace vim s segment_info)) k = Some (changedtick vim k, r)"
    by (rule miss(3))
qed

lemma scan_x_space:
  "scan_buffer (example_host\<lparr>changedtick := f\<rparr>) (PInt 1)
     \<lparr>buf_number = 1, buf_lines = [Line ''x '']\<rparr> = Inr (warning_at ''1'')"
  by (simp add: scan_eval example_host_def warning_at_def)

lemma scan_y:
  "scan_buffer (example_host\<lparr>changedtick := f\<rparr>) (PInt 1)
     \<lparr>buf_number = 1, buf_lines = [Line ''y'']\<rparr> = Inr Absent"
  by (simp add: scan_eval example_host_def)

lemma call_ok_x: "call_ok (PInt 1) (tw_call t [Line ''x ''])"
  by (simp add: call_ok_def tw_call_def get_buffer_def scan_x_space)

lemma call_ok_y: "call_ok (PInt 1) (tw_call t [Line ''y''])"
  by (simp add: call_ok_def tw_call_def get_buffer_def scan_y)

lemmas tw_eval =
  trailing_whitespace_def defaultdict_getitem_def register_buffer_cache_def get_buffer_def
  tw_call_def empty_tw_state_def

theorem trailing_whitespace_cache_contract_witness:
  "call_ok (PInt 1) (tw_call 3 [Line ''x ''])
   \<and> call_ok (PInt 1) (tw_call 5 [Line ''y''])
   \<and> ticks (PInt 1) [tw_call 3 [Line ''x ''], tw_call 3 [Line ''x ''], tw_call 5 [Line ''y'']]
       = [3, 3, 5]
   \<and> lookup_entry empty_tw_state (PInt 1) = None
   \<and> scans (snd (trailing_whitespace_run empty_tw_state
        [tw_call 3 [Line ''x ''], tw_call 3 [Line ''x ''], tw_call 5 [Line ''y'']])) = 2
   \<and> fst (trailing_whitespace (fst (tw_call 3 [Line ''x ''])) empty_tw_state
        (snd (tw_call 3 [Line ''x '']))) = Inr (warning_at ''1'')
   \<and> fst (trailing_whitespace (fst (tw_call 3 [Line ''y'']))
        \<lparr>trailing_whitespace_cache = Some [PInt 1 \<mapsto> (3, warning_at ''1'')], scans = 1\<rparr>
        (snd (tw_call 3 [Line ''y'']))) = Inr (warning_at ''1'')"
proof -
  let ?calls = "[tw_call 3 [Line ''x ''], tw_call 3 [Line ''x ''], tw_call 5 [Line ''y'']]"
  let ?st1 = "\<lparr>trailing_whitespace_cache = Some [PInt 1 \<mapsto> (3, warning_at ''1'')], scans = 1\<rparr>"
  have oks: "\<forall>call \<in> set ?calls. call_ok (PInt 1) call"
    by (simp add: call_ok_x call_ok_y)
  have t: "ticks (PInt 1) ?calls = [3, 3, 5]"
    by (simp add: ticks_def tw_call_def)
  have srt: "sorted (ticks (PInt 1) ?calls)" and nz: "0 \<notin> set (ticks (PInt 1) ?calls)"
    by (simp_all add: t)
  have e: "lookup_entry empty_tw_state (PInt 1) = None"
    by (simp add: lookup_entry_def empty_tw_state_def)
  note contract = trailing_whitespace_cache_contract [OF oks srt nz e]
  from contract
  have "scans (snd (trailing_whitespace_run empty_tw_state ?calls))
      = scans empty_tw_state + card (set (ticks (PInt 1) ?calls))"
    by (rule conjunct1)
  then have count: "scans (snd (trailing_whitespace_run empty_tw_state ?calls)) = 2"
    by (simp add: t empty_tw_state_def)
  have miss_pre: "snd (tw_call 3 [Line ''x '']) ''bufnr'' = Some (PInt 1)
      \<and> fst (entry_or_default empty_tw_state (PInt 1)) \<noteq> changedtick (fst (tw_call 3 [Line ''x ''])) (PInt 1)
      \<and> get_buffer (snd (tw_call 3 [Line ''x ''])) = Inr \<lparr>buf_number = 1, buf_lines = [Line ''x '']\<rparr>
      \<and> scan_buffer (fst (tw_call 3 [Line ''x ''])) (PInt 1)
           \<lparr>buf_number = 1, buf_lines = [Line ''x '']\<rparr> = Inr (warning_at ''1'')"
    by (simp add: tw_call_def entry_or_default_def e get_buffer_def scan_x_space)
  from contract miss_pre
  have miss: "fst (trailing_whitespace (fst (tw_call 3 [Line ''x ''])) empty_tw_state
        (snd (tw_call 3 [Line ''x '']))) = Inr (warning_at ''1'')"
    by blast
  have hit_pre: "snd (tw_call 3 [Line ''y'']) ''bufnr'' = Some (PInt 1)
      \<and> fst (entry_or_default ?st1 (PInt 1)) = changedtick (fst (tw_call 3 [Line ''y''])) (PInt 1)"
    by (simp add: tw_call_def entry_or_default_def lookup_entry_def)
  have stored: "snd (entry_or_default ?st1 (PInt 1)) = warning_at ''1''"
    by (simp add: entry_or_default_def lookup_entry_def)
  from contract hit_pre
  have "fst (trailing_whitespace (fst (tw_call 3 [Line ''y''])) ?st1 (snd (tw_call 3 [Line ''y''])))
      = Inr (snd (entry_or_default ?st1 (PInt 1)))"
    by blast
  then have hit: "fst (trailing_whitespace (fst (tw_call 3 [Line ''y''])) ?st1
      (snd (tw_call 3 [Line ''y'']))) = Inr (warning_at ''1'')"
    by (simp only: stored)
  from call_ok_x call_ok_y t e count miss hit show ?thesis by blast
qed

theorem trailing_whitespace_cache_counterexample:
  "lookup_entry empty_tw_state (PInt 1) = None
   \<and> scan_buffer (fst (tw_call 0 [Line ''x ''])) (PInt 1)
        \<lparr>buf_number = 1, buf_lines = [Line ''x '']\<rparr> = Inr (warning_at ''1'')
   \<and> trailing_whitespace (fst (tw_call 0 [Line ''x ''])) empty_tw_state
        (snd (tw_call 0 [Line ''x ''])) =
      (Inr Absent,
       \<lparr>trailing_whitespace_cache = Some [PInt 1 \<mapsto> (0, Absent)], scans = 0\<rparr>)
   \<and> ticks (PInt 1) [tw_call 1 [Line ''y''], tw_call 2 [Line ''y''], tw_call 1 [Line ''y'']]
        = [1, 2, 1]
   \<and> scans (snd (trailing_whitespace_run empty_tw_state
        [tw_call 1 [Line ''y''], tw_call 2 [Line ''y''], tw_call 1 [Line ''y'']])) = 3"
proof -
  have a: "lookup_entry empty_tw_state (PInt 1) = None"
    by (simp add: lookup_entry_def empty_tw_state_def)
  have b: "scan_buffer (fst (tw_call 0 [Line ''x ''])) (PInt 1)
        \<lparr>buf_number = 1, buf_lines = [Line ''x '']\<rparr> = Inr (warning_at ''1'')"
    by (simp add: tw_call_def scan_x_space)
  have c: "trailing_whitespace (fst (tw_call 0 [Line ''x ''])) empty_tw_state
        (snd (tw_call 0 [Line ''x ''])) =
      (Inr Absent,
       \<lparr>trailing_whitespace_cache = Some [PInt 1 \<mapsto> (0, Absent)], scans = 0\<rparr>)"
    by (simp add: tw_eval)
  have d: "ticks (PInt 1) [tw_call 1 [Line ''y''], tw_call 2 [Line ''y''], tw_call 1 [Line ''y'']]
        = [1, 2, 1]"
    by (simp add: ticks_def tw_call_def)
  have e: "scans (snd (trailing_whitespace_run empty_tw_state
        [tw_call 1 [Line ''y''], tw_call 2 [Line ''y''], tw_call 1 [Line ''y'']])) = 3"
    by (simp add: tw_eval scan_y)
  from a b c d e show ?thesis by simp
qed

section \<open>The scan of \<^verbatim>\<open>trailing_whitespace\<close>\<close>

lemma py_in_single: "py_in [c] cs = (c \<in> set cs)"
  by (induction cs) auto

lemma has_trailing_ws_py2:
  assumes "\<not> py3 vim"
  shows "has_trailing_ws vim bufnr i (Line line) =
         Inr (line \<noteq> [] \<and> (last line = CHR '' '' \<or> last line = CHR 0x09))"
  using assms by (auto simp: has_trailing_ws_def sws_def bws_def py_in_single)

lemma has_trailing_ws_py3:
  assumes "py3 vim"
  shows "has_trailing_ws vim bufnr i (Line line) =
         Inr (line \<noteq> [] \<and>
              last line \<in> {CHR ''b'', CHR 0x27, CHR '' '', CHR 0x5C, CHR ''t''})"
  using assms by (auto simp: has_trailing_ws_def sws_def py_in_single)

lemma has_trailing_ws_empty_line: "has_trailing_ws vim bufnr i (Line []) = Inr False"
  by (simp add: has_trailing_ws_def)

text \<open>
  Claim C3. In Python 3 the test of a decoded line is against the printed form of the
  bytes \<^verbatim>\<open>bws\<close>: the line \<^verbatim>\<open>cat\<close> is flagged (it ends in \<^verbatim>\<open>t\<close>) and the
  segment reports trailing whitespace at line 1, while a line that ends in a tab is
  not flagged. The claim, flagged if and only if the last character is a space or a
  tab, holds in Python 2 only (\<open>has_trailing_ws_py2\<close>).
\<close>

theorem trailing_whitespace_py3_flags:
  "py3 py3_host
   \<and> has_trailing_ws py3_host (PInt 1) 0 (Line ''cat'') = Inr True
   \<and> has_trailing_ws py3_host (PInt 1) 0 (Line [CHR ''x'', CHR 0x09]) = Inr False
   \<and> scan_buffer py3_host (PInt 1) \<lparr>buf_number = 1, buf_lines = [Line ''cat'']\<rparr> =
       Inr (warning_at ''1'')
   \<and> scan_buffer py3_host (PInt 1)
        \<lparr>buf_number = 1, buf_lines = [Line [CHR ''x'', CHR 0x09]]\<rparr> = Inr Absent
   \<and> fst (trailing_whitespace py3_host empty_tw_state
        [''bufnr'' \<mapsto> PInt 1,
         ''buffer'' \<mapsto> PBuffer \<lparr>buf_number = 1, buf_lines = [Line ''cat'']\<rparr>]) =
       Inr (warning_at ''1'')"
proof -
  have p: "py3 py3_host" by (simp add: py3_host_def)
  have a: "has_trailing_ws py3_host (PInt 1) 0 (Line ''cat'') = Inr True"
    by (simp add: has_trailing_ws_py3 [OF p])
  have b: "has_trailing_ws py3_host (PInt 1) 0 (Line [CHR ''x'', CHR 0x09]) = Inr False"
    by (simp add: has_trailing_ws_py3 [OF p])
  have c: "scan_buffer py3_host (PInt 1) \<lparr>buf_number = 1, buf_lines = [Line ''cat'']\<rparr> =
       Inr (warning_at ''1'')"
    by (simp add: scan_buffer_def a warning_at_def py_str_def str_nat.simps)
  have d: "scan_buffer py3_host (PInt 1)
        \<lparr>buf_number = 1, buf_lines = [Line [CHR ''x'', CHR 0x09]]\<rparr> = Inr Absent"
    by (simp add: scan_buffer_def b)
  have tick: "changedtick py3_host (PInt 1) = 1"
    by (simp add: py3_host_def example_host_def)
  have e: "fst (trailing_whitespace py3_host empty_tw_state
        [''bufnr'' \<mapsto> PInt 1,
         ''buffer'' \<mapsto> PBuffer \<lparr>buf_number = 1, buf_lines = [Line ''cat'']\<rparr>]) =
       Inr (warning_at ''1'')"
    by (simp add: trailing_whitespace_def defaultdict_getitem_def register_buffer_cache_def
        get_buffer_def empty_tw_state_def tick c)
  from p a b c d e show ?thesis by (intro conjI)
qed

lemma has_trailing_ws_eval_py3:
  assumes "py3 vim" and "\<not> has_bindeval vim"
  shows "\<exists>e. has_trailing_ws vim bufnr i Undecodable = Inl e"
  using assms by (auto simp: has_trailing_ws_def split: sum.splits)

lemma scan_buffer_undecodable_raises:
  assumes "py3 vim" and "\<not> has_bindeval vim" and "buf_lines buf = Undecodable # ls"
  shows "\<exists>e. scan_buffer vim bufnr buf = Inl e"
proof -
  from has_trailing_ws_eval_py3 [OF assms(1,2)]
  obtain e where "has_trailing_ws vim bufnr 0 Undecodable = Inl e" by blast
  with assms(3) show ?thesis by (simp add: scan_buffer_def)
qed

text \<open>
  Claim C10. A buffer of one line that cannot be decoded, in Python 3 on a host without
  \<^verbatim>\<open>vim.bindeval\<close>: the scan raises a \<^verbatim>\<open>TypeError\<close> (the \<^verbatim>\<open>str\<close> that
  \<^verbatim>\<open>vim.eval\<close> returns is tested against the bytes \<^verbatim>\<open>bws\<close>) and so does the
  segment, so the scan does not end without error for every buffer of at least one
  line. For buffers whose lines all decode the claim holds: see
  \<open>has_trailing_ws_empty_line\<close>, \<open>scan_buffer_decodable\<close> and
  \<open>scan_buffer_first_flagged\<close>.
\<close>

theorem scan_buffer_old_py3_raises:
  "py3 old_py3_host \<and> \<not> has_bindeval old_py3_host
   \<and> length (buf_lines \<lparr>buf_number = 1, buf_lines = [Undecodable]\<rparr>) = 1
   \<and> scan_buffer old_py3_host (PInt 1) \<lparr>buf_number = 1, buf_lines = [Undecodable]\<rparr> =
       Inl TypeError
   \<and> fst (trailing_whitespace old_py3_host empty_tw_state
        [''bufnr'' \<mapsto> PInt 1,
         ''buffer'' \<mapsto> PBuffer \<lparr>buf_number = 1, buf_lines = [Undecodable]\<rparr>]) =
       Inl TypeError"
proof -
  have p: "py3 old_py3_host" and nb: "\<not> has_bindeval old_py3_host"
    by (simp_all add: old_py3_host_def)
  have l: "length (buf_lines \<lparr>buf_number = 1, buf_lines = [Undecodable]\<rparr>) = 1" by simp
  have s: "scan_buffer old_py3_host (PInt 1) \<lparr>buf_number = 1, buf_lines = [Undecodable]\<rparr> =
      Inl TypeError"
    by (simp add: scan_buffer_def has_trailing_ws_def old_py3_host_def example_host_def)
  have tick: "changedtick old_py3_host (PInt 1) = 1"
    by (simp add: old_py3_host_def example_host_def)
  have t: "fst (trailing_whitespace old_py3_host empty_tw_state
        [''bufnr'' \<mapsto> PInt 1,
         ''buffer'' \<mapsto> PBuffer \<lparr>buf_number = 1, buf_lines = [Undecodable]\<rparr>]) =
       Inl TypeError"
    by (simp add: trailing_whitespace_def defaultdict_getitem_def register_buffer_cache_def
        get_buffer_def empty_tw_state_def tick s)
  from p nb l s t show ?thesis by (intro conjI)
qed

lemma has_trailing_ws_Line: "\<exists>flag. has_trailing_ws vim bufnr i (Line line) = Inr flag"
  by (simp add: has_trailing_ws_def)

lemma scan_lines_decodable:
  assumes "\<forall>l \<in> set ls. l \<noteq> Undecodable"
  shows "\<exists>v. scan_lines vim bufnr i ls vars = Inr v \<and> (ls \<noteq> [] \<longrightarrow> v \<noteq> None)"
  using assms
proof (induction ls arbitrary: i vars)
  case Nil
  then show ?case by simp
next
  case (Cons l ls)
  from Cons.prems obtain line where l: "l = Line line" by (cases l) auto
  obtain flag where f: "has_trailing_ws vim bufnr i (Line line) = Inr flag"
    using has_trailing_ws_Line by blast
  show ?case
  proof (cases flag)
    case True
    with l f show ?thesis by auto
  next
    case False
    from Cons.prems have "\<forall>l \<in> set ls. l \<noteq> Undecodable" by simp
    from Cons.IH [OF this, of "i + 1" "Some (i, False)"]
    obtain v where v: "scan_lines vim bufnr (i + 1) ls (Some (i, False)) = Inr v"
      and nn: "ls \<noteq> [] \<longrightarrow> v \<noteq> None" by blast
    have "v \<noteq> None" using v nn by (cases ls) auto
    with l f False v show ?thesis by auto
  qed
qed

lemma scan_buffer_decodable:
  assumes "buf_lines buf \<noteq> []" and "\<forall>l \<in> set (buf_lines buf). l \<noteq> Undecodable"
  shows "\<exists>r. scan_buffer vim bufnr buf = Inr r"
proof -
  from scan_lines_decodable [OF assms(2), of vim bufnr 0 None] assms(1)
  obtain v where "scan_lines vim bufnr 0 (buf_lines buf) None = Inr (Some v)" by auto
  then show ?thesis by (cases v) (simp add: scan_buffer_def)
qed

lemma scan_lines_first_flagged:
  assumes "scan_lines vim bufnr i ls vars = Inr (Some (j, True))"
    and "\<forall>j. vars \<noteq> Some (j, True)"
  shows "\<exists>n < length ls. j = i + n
      \<and> has_trailing_ws vim bufnr j (ls ! n) = Inr True
      \<and> (\<forall>m < n. has_trailing_ws vim bufnr (i + m) (ls ! m) = Inr False)
      \<and> (\<forall>rest. scan_lines vim bufnr i (take (Suc n) ls @ rest) vars = Inr (Some (j, True)))"
  using assms
proof (induction ls arbitrary: i vars)
  case Nil
  then show ?case by simp
next
  case (Cons l ls)
  from Cons.prems(1) obtain flag where f: "has_trailing_ws vim bufnr i l = Inr flag"
    by (cases "has_trailing_ws vim bufnr i l") auto
  show ?case
  proof (cases flag)
    case True
    with Cons.prems(1) f have "j = i" by simp
    with True f show ?thesis by (intro exI [of _ 0]) simp
  next
    case False
    with Cons.prems(1) f
    have r: "scan_lines vim bufnr (i + 1) ls (Some (i, False)) = Inr (Some (j, True))" by simp
    from Cons.IH [OF r] obtain n where n: "n < length ls" "j = i + 1 + n"
      "has_trailing_ws vim bufnr j (ls ! n) = Inr True"
      "\<forall>m < n. has_trailing_ws vim bufnr (i + 1 + m) (ls ! m) = Inr False"
      "\<forall>rest. scan_lines vim bufnr (i + 1) (take (Suc n) ls @ rest) (Some (i, False)) =
          Inr (Some (j, True))"
      by auto
    have before: "\<forall>m < Suc n. has_trailing_ws vim bufnr (i + m) ((l # ls) ! m) = Inr False"
    proof (intro allI impI)
      fix m assume "m < Suc n"
      show "has_trailing_ws vim bufnr (i + m) ((l # ls) ! m) = Inr False"
      proof (cases m)
        case 0
        with f False show ?thesis by simp
      next
        case (Suc m')
        with \<open>m < Suc n\<close> n(4) show ?thesis by simp
      qed
    qed
    have rest: "\<forall>rest. scan_lines vim bufnr i (take (Suc (Suc n)) (l # ls) @ rest) vars =
        Inr (Some (j, True))"
      using n(5) f False by simp
    show ?thesis
      using n(1) n(2) n(3) before rest by (intro exI [of _ "Suc n"]) simp
  qed
qed

lemma scan_buffer_first_flagged:
  assumes "scan_buffer vim bufnr buf = Inr (Parts ps)"
  shows "\<exists>n < length (buf_lines buf).
        ps = [\<lparr>contents = py_str (int n + 1),
               highlight_group = [''trailing_whitespace'', ''warning''],
               divider_highlight_group = None, gradient_level = None\<rparr>]
      \<and> has_trailing_ws vim bufnr n (buf_lines buf ! n) = Inr True
      \<and> (\<forall>m < n. has_trailing_ws vim bufnr m (buf_lines buf ! m) = Inr False)
      \<and> (\<forall>rest. scan_buffer vim bufnr (buf\<lparr>buf_lines := take (Suc n) (buf_lines buf) @ rest\<rparr>) =
            Inr (Parts ps))"
proof -
  from assms obtain j where j: "scan_lines vim bufnr 0 (buf_lines buf) None = Inr (Some (j, True))"
    and ps: "ps = [\<lparr>contents = py_str (int j + 1),
               highlight_group = [''trailing_whitespace'', ''warning''],
               divider_highlight_group = None, gradient_level = None\<rparr>]"
    by (auto simp: scan_buffer_def split: sum.splits option.splits if_splits)
  from scan_lines_first_flagged [OF j] obtain n where n: "n < length (buf_lines buf)" "j = n"
    "has_trailing_ws vim bufnr j (buf_lines buf ! n) = Inr True"
    "\<forall>m < n. has_trailing_ws vim bufnr m (buf_lines buf ! m) = Inr False"
    "\<forall>rest. scan_lines vim bufnr 0 (take (Suc n) (buf_lines buf) @ rest) None =
        Inr (Some (j, True))"
    by auto
  have "\<forall>rest. scan_buffer vim bufnr (buf\<lparr>buf_lines := take (Suc n) (buf_lines buf) @ rest\<rparr>) =
      Inr (Parts ps)"
    using n(5) ps by (simp add: scan_buffer_def)
  with n ps show ?thesis by (intro exI [of _ n]) simp
qed

end
